theory Spec2Isabelle
  imports Complex_Main "HOL-Library.AList" "HOL-Library.Sublist"
begin

section \<open>The state store (state module, \<open>createStore\<close>)\<close>

text \<open>
  The store keeps one object \<open>state\<close> whose keys are strings. A JavaScript object is
  a finite map from keys to values; \<open>state[key]\<close> of a missing key is \<open>undefined\<close>.
  Values held in the store are scalars or references to objects (arrays, sets, maps).
\<close>

datatype jsval =
    JUndefined
  | JNull
  | JBool bool
  | JNum int
  | JStr string
  | JRef nat

type_synonym appstate = "string \<rightharpoonup> jsval"

text \<open>
  A listener is called with the new and the previous state. What it does outside the
  store is not part of the model; what the store sees of it is whether it throws
  (\<open>Some message\<close>), which \<open>setState\<close> catches and logs. The one listener the
  application subscribes (in \<open>init\<close>) reads the state and writes the preferences
  to local storage; it does not call back into the store.
\<close>

type_synonym listener = "appstate \<Rightarrow> appstate \<Rightarrow> string option"

record store =
  state :: appstate
  listeners :: "listener list"
  console_errors :: "string list"

text \<open>\<open>{ ...a, ...b }\<close>: the keys of \<open>a\<close>, overridden and extended by those of \<open>b\<close>.\<close>

definition spread :: "appstate \<Rightarrow> appstate \<Rightarrow> appstate" where
  "spread a b = a ++ b"

text \<open>\<open>listeners.forEach(fn => { try { fn(state, prevState) } catch (error) { console.error(...) } })\<close>\<close>

fun notify :: "listener list \<Rightarrow> appstate \<Rightarrow> appstate \<Rightarrow> string list" where
  "notify [] new prev = []"
| "notify (fn # fns) new prev =
     (case fn new prev of
        None \<Rightarrow> notify fns new prev
      | Some err \<Rightarrow> err # notify fns new prev)"

definition getState :: "store \<Rightarrow> appstate" where
  "getState st = spread (state st) Map.empty"

text \<open>\<open>get(key)\<close> reads \<open>state[key]\<close>; the keys a JavaScript object inherits are not modelled.\<close>

definition get :: "store \<Rightarrow> string \<Rightarrow> jsval" where
  "get st key = (case state st key of None \<Rightarrow> JUndefined | Some v \<Rightarrow> v)"

definition setState :: "store \<Rightarrow> appstate \<Rightarrow> store" where
  "setState st updates =
     (let prevState = state st;
          newState = spread prevState updates
      in st\<lparr> state := newState,
              console_errors := console_errors st @ notify (listeners st) newState prevState \<rparr>)"

text \<open>\<open>listeners.add(listener)\<close>: a set in insertion order.\<close>

definition subscribe :: "store \<Rightarrow> listener \<Rightarrow> store" where
  "subscribe st listener =
     (if listener \<in> set (listeners st) then st
      else st\<lparr> listeners := listeners st @ [listener] \<rparr>)"

section \<open>Configuration\<close>

text \<open>
  The configuration module of the sources has the sections \<open>proxy\<close> and
  \<open>slideshow\<close> (among others) but no section \<open>preloading\<close>, which the code reads.
  The constants that the code reads are parameters of the model: counts and thresholds
  are natural numbers, buffer marks are seconds.
\<close>

record config =
  MAX_CACHED_VIDEOS :: nat
  CLEANUP_THRESHOLD :: nat
  VIDEO_PRELOAD_COUNT :: nat
  URL_PRELOAD_COUNT :: nat
  PRELOAD_COUNT :: nat
  PRELOAD_THRESHOLD :: nat
  MIN_BUFFER_SECONDS :: real
  HEALTHY_BUFFER_SECONDS :: real
  PROXY_ENABLED :: bool
  PROXY_URL :: string

section \<open>Data model\<close>

text \<open>
  A slide object. \<open>url\<close> is \<open>null\<close> until an external reference is resolved;
  \<open>externalVideoId\<close> is absent on slides that are not external videos. Slide objects
  are shared by reference (the renderer writes the resolved URL into the object), so the
  slide sequence holds references into a heap of slide objects.
\<close>

record slide =
  s_type :: string
  s_url :: "string option"
  s_needsResolve :: bool
  s_externalVideoId :: "string option"

text \<open>JavaScript truthiness of a string-or-null value: present and not empty.\<close>

definition truthy :: "string option \<Rightarrow> bool" where
  "truthy v = (case v of None \<Rightarrow> False | Some s \<Rightarrow> s \<noteq> [])"

text \<open>
  A video element of the document: the attributes and style the code sets, the playback
  state it reads, and where the element hangs. \<open>v_onerror\<close> is the slide index captured
  by the one-shot \<open>error\<close> listener that \<open>preloadVideoElement\<close> installs.
\<close>

datatype parent = NoParent | InBody | InSlide

record video =
  v_src :: string
  v_preload :: string
  v_muted :: bool
  v_loop :: bool
  v_autoplay :: bool
  v_poster :: string
  v_offscreen :: bool
  v_paused :: bool
  v_parent :: parent
  v_onerror :: "int option"
  v_buffered :: "(real \<times> real) list"
  v_currentTime :: real

text \<open>What \<open>document.createElement('video')\<close> returns.\<close>

definition newVideo :: video where
  "newVideo = \<lparr> v_src = [], v_preload = [], v_muted = False, v_loop = False,
                v_autoplay = False, v_poster = [], v_offscreen = False, v_paused = True,
                v_parent = NoParent, v_onerror = None, v_buffered = [], v_currentTime = 0 \<rparr>"

text \<open>An entry of the preload element cache: \<open>{ element, url, timestamp }\<close>.\<close>

record cached =
  element :: nat
  url :: string
  timestamp :: nat

text \<open>A rendered slide of the slideshow container: its position class and its video, if any.\<close>

record slide_el =
  position :: string
  media :: "nat option"

text \<open>Work that the code defers: timers, and the two continuations of a resolution.\<close>

datatype task =
    StartBufferMonitoring
  | PreloadUpcomingVideos "nat list" int

datatype callback =
    FromPreloader string
  | FromRenderer nat nat string

datatype stage = AwaitToken | AwaitGif

record attempt =
  a_id :: string
  a_stage :: stage
  a_then :: callback

datatype request = AuthRequest | GifRequest string string

record urls =
  u_hd :: "string option"
  u_sd :: "string option"

record api_data =
  gif_urls :: "urls option"
  top_urls :: "urls option"

text \<open>
  The world: the keys of the store that the preload subsystem and the navigation read and
  write, the module-level variables, the part of the document the code touches, and the
  asynchronous work in flight. The \<open>Map\<close> objects are association lists in insertion
  order, maintained by \<open>AList.update\<close> and \<open>AList.delete\<close>; the \<open>Set\<close> objects are sets.
  Console output and the purely visual updates (swipe feedback, counters, overlays) are
  not part of the model.
\<close>

record world =
  slides :: "nat list"
  objs :: "nat \<Rightarrow> slide"
  nextObj :: nat
  currentIndex :: int
  subreddit :: string
  after :: "string option"
  loading :: bool
  isZoomed :: bool
  panX :: int
  panY :: int
  isPanning :: bool
  videoMuted :: bool
  preloadingPaused :: bool
  preloadedVideos :: "(int \<times> cached) list"
  preloadedVideoUrls :: "(string \<times> string) list"
  preloadingInProgress :: "string set"
  preloadedImages :: "string option set"
  videos :: "nat \<Rightarrow> video"
  nextVideo :: nat
  slideshow :: "slide_el list option"
  bufferMonitorInterval :: bool
  timers :: "task list"
  plays :: "nat list"
  attempts :: "attempt list"
  requests :: "request list"
  feedFetches :: nat
  postFetches :: "nat list list"
  externalVideoToken :: "string option"
  externalVideoTokenExpiry :: nat
  clock :: nat

section \<open>Elements and maps\<close>

definition has :: "('k \<times> 'v) list \<Rightarrow> 'k \<Rightarrow> bool" where
  "has m k = (map_of m k \<noteq> None)"

definition size_of :: "('k \<times> 'v) list \<Rightarrow> nat" where
  "size_of m = length m"

definition setVideo :: "nat \<Rightarrow> (video \<Rightarrow> video) \<Rightarrow> world \<Rightarrow> world" where
  "setVideo r f w = w\<lparr> videos := (videos w)(r := f (videos w r)) \<rparr>"

text \<open>\<open>element.pause()\<close>\<close>

definition pause :: "nat \<Rightarrow> world \<Rightarrow> world" where
  "pause r w = setVideo r (\<lambda>v. v\<lparr> v_paused := True \<rparr>) w"

text \<open>\<open>element.play().catch(() => {})\<close>: playback starts.\<close>

definition play :: "nat \<Rightarrow> world \<Rightarrow> world" where
  "play r w = setVideo r (\<lambda>v. v\<lparr> v_paused := False \<rparr>) w"

text \<open>
  \<open>element.play().then(() => element.pause()).catch(() => {})\<close>: playback starts and the
  pause waits for the promise of \<open>play\<close> to settle.
\<close>

definition playThenPause :: "nat \<Rightarrow> world \<Rightarrow> world" where
  "playThenPause r w = (play r w)\<lparr> plays := plays w @ [r] \<rparr>"

text \<open>The promise settles: fulfilled runs the pause, rejected runs the empty handler.\<close>

definition playSettled :: "nat \<Rightarrow> bool \<Rightarrow> world \<Rightarrow> world" where
  "playSettled n fulfilled w =
     (if n < length (plays w)
      then let r = plays w ! n;
               w1 = w\<lparr> plays := take n (plays w) @ drop (Suc n) (plays w) \<rparr>
           in if fulfilled then pause r w1 else w1
      else w)"

text \<open>\<open>element.remove()\<close>\<close>

definition removeEl :: "nat \<Rightarrow> world \<Rightarrow> world" where
  "removeEl r w = setVideo r (\<lambda>v. v\<lparr> v_parent := NoParent \<rparr>) w"

section \<open>The user-interface module: buffer health\<close>

text \<open>\<open>elements.slideshow?.querySelector('.slide.active video') || null\<close>\<close>

fun firstActiveVideo :: "slide_el list \<Rightarrow> nat option" where
  "firstActiveVideo [] = None"
| "firstActiveVideo (e # es) =
     (if position e = ''active'' \<and> media e \<noteq> None then media e else firstActiveVideo es)"

definition getActiveVideo :: "world \<Rightarrow> nat option" where
  "getActiveVideo w = (case slideshow w of None \<Rightarrow> None | Some es \<Rightarrow> firstActiveVideo es)"

fun bufferScan :: "(real \<times> real) list \<Rightarrow> real \<Rightarrow> real" where
  "bufferScan [] t = 0"
| "bufferScan ((start, end) # rs) t =
     (if start \<le> t \<and> t \<le> end then end - t else bufferScan rs t)"

definition getBufferHealth :: "video option \<Rightarrow> real" where
  "getBufferHealth video =
     (case video of
        None \<Rightarrow> 0
      | Some v \<Rightarrow> if length (v_buffered v) = 0 then 0
                  else bufferScan (v_buffered v) (v_currentTime v))"

text \<open>
  The loop of \<open>pauseAllPreloads\<close> over the entries of the cache. Every entry holds an
  element, so the test \<open>cached.element && !cached.element.paused\<close> is the test of
  \<open>paused\<close>.
\<close>

fun pauseLoop :: "(int \<times> cached) list \<Rightarrow> world \<Rightarrow> world" where
  "pauseLoop [] w = w"
| "pauseLoop ((slideIndex, c) # rest) w =
     pauseLoop rest (if \<not> v_paused (videos w (element c)) then pause (element c) w else w)"

definition pauseAllPreloads :: "world \<Rightarrow> world" where
  "pauseAllPreloads w =
     (if preloadingPaused w then w
      else (pauseLoop (preloadedVideos w) w)\<lparr> preloadingPaused := True \<rparr>)"

definition resumePreloads :: "world \<Rightarrow> world" where
  "resumePreloads w =
     (if \<not> preloadingPaused w then w
      else let w1 = w\<lparr> preloadingPaused := False \<rparr>
           in case map_of (preloadedVideos w1) (currentIndex w1 + 1) of
                None \<Rightarrow> w1
              | Some nextVideoCache \<Rightarrow> playThenPause (element nextVideoCache) w1)"

definition stopBufferMonitoring :: "world \<Rightarrow> world" where
  "stopBufferMonitoring w = w\<lparr> bufferMonitorInterval := False \<rparr>"

definition checkBuffer :: "config \<Rightarrow> world \<Rightarrow> world" where
  "checkBuffer cfg w =
     (case getActiveVideo w of
        None \<Rightarrow> w
      | Some r \<Rightarrow>
          let bufferHealth = getBufferHealth (Some (videos w r));
              minBuffer = MIN_BUFFER_SECONDS cfg;
              healthyBuffer = HEALTHY_BUFFER_SECONDS cfg
          in if bufferHealth < minBuffer \<and> \<not> preloadingPaused w then pauseAllPreloads w
             else if bufferHealth > healthyBuffer \<and> preloadingPaused w then resumePreloads w
             else w)"

definition startBufferMonitoring :: "config \<Rightarrow> world \<Rightarrow> world" where
  "startBufferMonitoring cfg w =
     (checkBuffer cfg (stopBufferMonitoring w))\<lparr> bufferMonitorInterval := True \<rparr>"

section \<open>The user-interface module: the preload element cache\<close>

definition preloadVideoElement :: "config \<Rightarrow> nat \<Rightarrow> int \<Rightarrow> string \<Rightarrow> world \<Rightarrow> world" where
  "preloadVideoElement cfg slideData slideIndex videoUrl w =
     (if has (preloadedVideos w) slideIndex then w
      else if size_of (preloadedVideos w) \<ge> MAX_CACHED_VIDEOS cfg then w
      else if preloadingPaused w then w
      else
        let video = nextVideo w;
            w1 = w\<lparr> nextVideo := Suc video,
                    videos := (videos w)(video := newVideo
                      \<lparr> v_src := videoUrl, v_preload := ''metadata'', v_muted := True,
                        v_loop := True, v_offscreen := True, v_parent := InBody,
                        v_onerror := Some slideIndex \<rparr>) \<rparr>;
            w2 = w1\<lparr> preloadedVideos := AList.update slideIndex
                        \<lparr> element = video, url = videoUrl, timestamp = clock w1 \<rparr>
                        (preloadedVideos w1) \<rparr>
        in if slideIndex = currentIndex w2 + 1 then playThenPause video w2 else w2)"

text \<open>
  The \<open>error\<close> listener of a preloaded element (installed with \<open>once: true\<close>): it deletes
  the entry at the captured index and removes the element.
\<close>

definition videoError :: "nat \<Rightarrow> world \<Rightarrow> world" where
  "videoError r w =
     (case v_onerror (videos w r) of
        None \<Rightarrow> w
      | Some slideIndex \<Rightarrow>
          removeEl r
            (setVideo r (\<lambda>v. v\<lparr> v_onerror := None \<rparr>)
              (w\<lparr> preloadedVideos := AList.delete slideIndex (preloadedVideos w) \<rparr>)))"

definition getPreloadedVideo :: "int \<Rightarrow> world \<Rightarrow> nat option \<times> world" where
  "getPreloadedVideo slideIndex w =
     (case map_of (preloadedVideos w) slideIndex of
        Some c \<Rightarrow>
          (Some (element c),
           setVideo (element c) (\<lambda>v. v\<lparr> v_offscreen := False \<rparr>)
             (w\<lparr> preloadedVideos := AList.delete slideIndex (preloadedVideos w) \<rparr>))
      | None \<Rightarrow> (None, w))"

text \<open>
  The loop of \<open>cleanupOldPreloads\<close> visits the entries of the map; deleting the entry
  being visited does not disturb the iteration.
\<close>

fun cleanupLoop :: "config \<Rightarrow> int \<Rightarrow> (int \<times> cached) list \<Rightarrow> world \<Rightarrow> world" where
  "cleanupLoop cfg current [] w = w"
| "cleanupLoop cfg current ((slideIndex, c) # rest) w =
     cleanupLoop cfg current rest
       (if slideIndex < current - int (CLEANUP_THRESHOLD cfg)
        then (removeEl (element c) (setVideo (element c) (\<lambda>v. v\<lparr> v_src := [] \<rparr>) w))
               \<lparr> preloadedVideos := AList.delete slideIndex (preloadedVideos w) \<rparr>
        else w)"

definition cleanupOldPreloads :: "config \<Rightarrow> int \<Rightarrow> world \<Rightarrow> world" where
  "cleanupOldPreloads cfg current w = cleanupLoop cfg current (preloadedVideos w) w"

text \<open>\<open>slides[idx]\<close>: \<open>undefined\<close> outside the array.\<close>

definition slideAt :: "nat list \<Rightarrow> int \<Rightarrow> nat option" where
  "slideAt xs idx = (if 0 \<le> idx \<and> idx < int (length xs) then Some (xs ! nat idx) else None)"

section \<open>The media module: resolving external video identifiers\<close>

definition lowerChar :: "char \<Rightarrow> char" where
  "lowerChar c =
     (let n = (of_char c :: nat) in if 65 \<le> n \<and> n \<le> 90 then char_of (n + 32) else c)"

definition toLowerCase :: "string \<Rightarrow> string" where
  "toLowerCase s = map lowerChar s"

text \<open>\<open>a || b\<close> on strings that may be \<open>null\<close> or \<open>undefined\<close>.\<close>

definition orElse :: "string option \<Rightarrow> string option \<Rightarrow> string option" where
  "orElse a b = (if truthy a then a else b)"

text \<open>
  \<open>fetchExternalVideoUrl(id)\<close> up to its first network request. With a token that has
  not expired the request for the video goes out; otherwise the request for a token does.
  The promise the function returns is the attempt; \<open>k\<close> is what the caller chains to it.
\<close>

definition fetchExternalVideoUrl :: "string \<Rightarrow> callback \<Rightarrow> world \<Rightarrow> world" where
  "fetchExternalVideoUrl videoId k w =
     (if truthy (externalVideoToken w) \<and> clock w < externalVideoTokenExpiry w
      then w\<lparr> requests := requests w @ [GifRequest (toLowerCase videoId) (the (externalVideoToken w))],
              attempts := attempts w @ [\<lparr> a_id = videoId, a_stage = AwaitGif, a_then = k \<rparr>] \<rparr>
      else w\<lparr> requests := requests w @ [AuthRequest],
              attempts := attempts w @ [\<lparr> a_id = videoId, a_stage = AwaitToken, a_then = k \<rparr>] \<rparr>)"

definition getPreloadedVideoUrl :: "string \<Rightarrow> world \<Rightarrow> string option" where
  "getPreloadedVideoUrl videoId w = orElse (map_of (preloadedVideoUrls w) videoId) None"

text \<open>The two continuations chained to a resolution, run with the URL or \<open>null\<close>.\<close>

definition runCallback :: "callback \<Rightarrow> string option \<Rightarrow> world \<Rightarrow> world" where
  "runCallback k result w =
     (case k of
        FromPreloader videoId \<Rightarrow>
          (let w1 = (if truthy result
                     then w\<lparr> preloadedVideoUrls :=
                              AList.update videoId (the result) (preloadedVideoUrls w) \<rparr>
                     else w)
           in w1\<lparr> preloadingInProgress := preloadingInProgress w1 - {videoId} \<rparr>)
      | FromRenderer video data pos \<Rightarrow>
          (let w1 = w\<lparr> preloadingInProgress :=
                        preloadingInProgress w - set_option (s_externalVideoId (objs w data)) \<rparr>
           in if truthy result
              then let w2 = (case s_externalVideoId (objs w1 data) of
                               None \<Rightarrow> w1
                             | Some videoId \<Rightarrow>
                                 w1\<lparr> preloadedVideoUrls :=
                                       AList.update videoId (the result) (preloadedVideoUrls w1) \<rparr>);
                       w3 = setVideo video (\<lambda>v. v\<lparr> v_src := the result \<rparr>) w2;
                       w4 = w3\<lparr> objs := (objs w3)(data := (objs w3 data)
                                     \<lparr> s_url := result, s_needsResolve := False \<rparr>) \<rparr>
                   in if pos = ''active'' then play video w4 else w4
              else setVideo video (\<lambda>v. v\<lparr> v_poster := ''Video unavailable'' \<rparr>) w1))"

definition dropAttempt :: "nat \<Rightarrow> world \<Rightarrow> world" where
  "dropAttempt n w = w\<lparr> attempts := take n (attempts w) @ drop (Suc n) (attempts w) \<rparr>"

text \<open>
  The answer to the token request of attempt \<open>n\<close>: \<open>token\<close> is \<open>data.token\<close>, or
  \<open>None\<close> when the request or its decoding failed. A token is kept for an hour and the
  request for the video goes out; without a token the resolution ends with \<open>null\<close>.
\<close>

definition authResponse :: "nat \<Rightarrow> string option \<Rightarrow> world \<Rightarrow> world" where
  "authResponse n token w =
     (if n < length (attempts w) \<and> a_stage (attempts w ! n) = AwaitToken
      then let a = attempts w ! n
           in if truthy token
              then w\<lparr> externalVideoToken := token,
                      externalVideoTokenExpiry := clock w + 60 * 60 * 1000,
                      requests := requests w @ [GifRequest (toLowerCase (a_id a)) (the token)],
                      attempts := (attempts w)[n := a\<lparr> a_stage := AwaitGif \<rparr>] \<rparr>
              else runCallback (a_then a) None (dropAttempt n w)
      else w)"

text \<open>
  What \<open>fetchExternalVideoUrl\<close> returns from the answer to the video request
  (\<open>None\<close>: the request or its decoding failed). \<open>enc\<close> is \<open>encodeURIComponent\<close>.
\<close>

definition resolvedUrl :: "config \<Rightarrow> (string \<Rightarrow> string) \<Rightarrow> api_data option \<Rightarrow> string option" where
  "resolvedUrl cfg enc data =
     (case data of
        None \<Rightarrow> None
      | Some d \<Rightarrow>
          let us = (case gif_urls d of Some u \<Rightarrow> u
                    | None \<Rightarrow> (case top_urls d of Some u \<Rightarrow> u
                                | None \<Rightarrow> \<lparr> u_hd = None, u_sd = None \<rparr>));
              videoUrl = orElse (orElse (u_hd us) (u_sd us)) None
          in if truthy videoUrl \<and> PROXY_ENABLED cfg
             then Some (PROXY_URL cfg @ ''?url='' @ enc (the videoUrl))
             else videoUrl)"

definition gifResponse ::
  "config \<Rightarrow> (string \<Rightarrow> string) \<Rightarrow> nat \<Rightarrow> api_data option \<Rightarrow> world \<Rightarrow> world" where
  "gifResponse cfg enc n data w =
     (if n < length (attempts w) \<and> a_stage (attempts w ! n) = AwaitGif
      then runCallback (a_then (attempts w ! n)) (resolvedUrl cfg enc data) (dropAttempt n w)
      else w)"

text \<open>
  The loop of \<open>preloadExternalVideoUrls\<close> over \<open>i = 0, ..., count - 1\<close>, given as the
  list of the indices \<open>startIndex + i\<close> still to visit. Reading a property of
  \<open>slides[idx]\<close> for a negative index throws and ends the function.
\<close>

fun preloadUrlsLoop :: "nat list \<Rightarrow> int list \<Rightarrow> world \<Rightarrow> world" where
  "preloadUrlsLoop sl [] w = w"
| "preloadUrlsLoop sl (idx # rest) w =
     (if idx \<ge> int (length sl) then w
      else case slideAt sl idx of
        None \<Rightarrow> w
      | Some data \<Rightarrow>
          let d = objs w data
          in if \<not> s_needsResolve d \<or> \<not> truthy (s_externalVideoId d)
             then preloadUrlsLoop sl rest w
             else let videoId = the (s_externalVideoId d)
                  in if has (preloadedVideoUrls w) videoId \<or> videoId \<in> preloadingInProgress w
                     then preloadUrlsLoop sl rest w
                     else preloadUrlsLoop sl rest
                            (fetchExternalVideoUrl videoId (FromPreloader videoId)
                              (w\<lparr> preloadingInProgress :=
                                     insert videoId (preloadingInProgress w) \<rparr>)))"

definition preloadExternalVideoUrls :: "nat list \<Rightarrow> int \<Rightarrow> nat \<Rightarrow> world \<Rightarrow> world" where
  "preloadExternalVideoUrls sl startIndex count w =
     preloadUrlsLoop sl (map (\<lambda>i. startIndex + int i) [0..<count]) w"

section \<open>The user-interface module: rendering the slides\<close>

text \<open>
  \<open>createSlideElement(data, position, slideIndex)\<close>. A video slide takes its element
  from the preload element cache when there is one. Otherwise a new element is created;
  for an external video whose URL is not in the resolution cache the identifier is put in
  the in-flight set and a resolution is started.
\<close>

definition createSlideElement :: "nat \<Rightarrow> string \<Rightarrow> int \<Rightarrow> world \<Rightarrow> slide_el \<times> world" where
  "createSlideElement data pos slideIndex w =
     (if s_type (objs w data) = ''video''
      then case getPreloadedVideo slideIndex w of
          (Some preloadedVideo, w1) \<Rightarrow>
            (let w2 = setVideo preloadedVideo
                        (\<lambda>v. v\<lparr> v_muted := videoMuted w1, v_parent := InSlide \<rparr>) w1;
                 w3 = (if pos = ''active''
                       then play preloadedVideo
                              (setVideo preloadedVideo (\<lambda>v. v\<lparr> v_autoplay := True \<rparr>) w2)
                       else w2)
             in (\<lparr> position = pos, media = Some preloadedVideo \<rparr>, w3))
        | (None, w1) \<Rightarrow>
            (let video = nextVideo w1;
                 w2 = w1\<lparr> nextVideo := Suc video,
                         videos := (videos w1)(video := newVideo
                           \<lparr> v_loop := True, v_muted := videoMuted w1, v_preload := ''auto'',
                             v_autoplay := (pos = ''active'') \<rparr>) \<rparr>;
                 d = objs w2 data;
                 w3 = (if s_needsResolve d \<and> truthy (s_externalVideoId d)
                       then let videoId = the (s_externalVideoId d)
                            in case getPreloadedVideoUrl videoId w2 of
                                 Some preloadedUrl \<Rightarrow>
                                   (setVideo video (\<lambda>v. v\<lparr> v_src := preloadedUrl \<rparr>) w2)
                                     \<lparr> objs := (objs w2)(data := d
                                         \<lparr> s_url := Some preloadedUrl, s_needsResolve := False \<rparr>) \<rparr>
                               | None \<Rightarrow>
                                   fetchExternalVideoUrl videoId (FromRenderer video data pos)
                                     (setVideo video (\<lambda>v. v\<lparr> v_poster := ''Loading...'' \<rparr>)
                                       (w2\<lparr> preloadingInProgress :=
                                              insert videoId (preloadingInProgress w2) \<rparr>))
                       else setVideo video
                              (\<lambda>v. v\<lparr> v_src := (case s_url d of None \<Rightarrow> ''null'' | Some u \<Rightarrow> u) \<rparr>) w2);
                 w4 = setVideo video (\<lambda>v. v\<lparr> v_parent := InSlide \<rparr>) w3;
                 w5 = (if pos = ''active'' \<and> v_src (videos w4 video) \<noteq> []
                       then play video w4 else w4)
             in (\<lparr> position = pos, media = Some video \<rparr>, w5))
      else (\<lparr> position = pos, media = None \<rparr>, w))"

text \<open>
  \<open>updateSlides()\<close>: the rendered slides are removed and the previous, the current and
  the next slide are rendered, where they exist.
\<close>

fun renderOffsets :: "nat list \<Rightarrow> int \<Rightarrow> (int \<times> string) list \<Rightarrow> world \<Rightarrow> world" where
  "renderOffsets sl current [] w = w"
| "renderOffsets sl current ((offset, pos) # rest) w =
     (let idx = current + offset
      in if idx < 0 \<or> idx \<ge> int (length sl) then renderOffsets sl current rest w
         else case createSlideElement (sl ! nat idx) pos idx w of
                (el, w1) \<Rightarrow>
                  renderOffsets sl current rest
                    (w1\<lparr> slideshow := map_option (\<lambda>es. es @ [el]) (slideshow w1) \<rparr>))"

definition updateSlides :: "world \<Rightarrow> world" where
  "updateSlides w =
     (case slideshow w of
        None \<Rightarrow> w
      | Some es \<Rightarrow>
          renderOffsets (slides w) (currentIndex w) [(-1, ''prev''), (0, ''active''), (1, ''next'')]
            (w\<lparr> slideshow := Some [] \<rparr>))"

text \<open>
  The loop of \<open>preloadUpcomingVideos(slides, currentIndex)\<close> over \<open>i = 1, ..., count\<close>,
  given as the list of the indices \<open>currentIndex + i\<close> still to visit.
\<close>

fun preloadVideosLoop :: "config \<Rightarrow> nat list \<Rightarrow> int list \<Rightarrow> world \<Rightarrow> world" where
  "preloadVideosLoop cfg sl [] w = w"
| "preloadVideosLoop cfg sl (idx # rest) w =
     (if idx \<ge> int (length sl) then w
      else case slideAt sl idx of
        None \<Rightarrow> w
      | Some data \<Rightarrow>
          let d = objs w data
          in if s_type d \<noteq> ''video'' then preloadVideosLoop cfg sl rest w
             else if s_needsResolve d \<and> truthy (s_externalVideoId d)
             then (case orElse (map_of (preloadedVideoUrls w) (the (s_externalVideoId d))) None of
                     Some cachedUrl \<Rightarrow>
                       preloadVideosLoop cfg sl rest (preloadVideoElement cfg data idx cachedUrl w)
                   | None \<Rightarrow> preloadVideosLoop cfg sl rest w)
             else if truthy (s_url d)
             then preloadVideosLoop cfg sl rest (preloadVideoElement cfg data idx (the (s_url d)) w)
             else preloadVideosLoop cfg sl rest w)"

definition preloadUpcomingVideos :: "config \<Rightarrow> nat list \<Rightarrow> int \<Rightarrow> world \<Rightarrow> world" where
  "preloadUpcomingVideos cfg sl current w =
     preloadVideosLoop cfg sl
       (map (\<lambda>i. current + int i) [1..<Suc (VIDEO_PRELOAD_COUNT cfg)]) w"

section \<open>The controls module: navigation\<close>

definition resetZoom :: "world \<Rightarrow> world" where
  "resetZoom w = w\<lparr> isZoomed := False, panX := 0, panY := 0, isPanning := False \<rparr>"

fun preloadImagesLoop :: "nat list \<Rightarrow> int list \<Rightarrow> world \<Rightarrow> world" where
  "preloadImagesLoop sl [] w = w"
| "preloadImagesLoop sl (idx # rest) w =
     (if idx \<ge> int (length sl) then w
      else case slideAt sl idx of
        None \<Rightarrow> w
      | Some data \<Rightarrow>
          let d = objs w data
          in if s_type d = ''image'' \<and> s_url d \<notin> preloadedImages w
             then preloadImagesLoop sl rest
                    (w\<lparr> preloadedImages := insert (s_url d) (preloadedImages w) \<rparr>)
             else preloadImagesLoop sl rest w)"

definition setTimeout :: "task \<Rightarrow> world \<Rightarrow> world" where
  "setTimeout t w = w\<lparr> timers := timers w @ [t] \<rparr>"

definition preloadUpcomingMedia :: "config \<Rightarrow> world \<Rightarrow> world" where
  "preloadUpcomingMedia cfg w =
     (let sl = slides w;
          current = currentIndex w;
          w1 = preloadImagesLoop sl
                 (map (\<lambda>i. current + int i) [1..<Suc (PRELOAD_COUNT cfg)]) w;
          w2 = preloadExternalVideoUrls sl (current + 1) (URL_PRELOAD_COUNT cfg) w1
      in setTimeout (PreloadUpcomingVideos sl current) w2)"

text \<open>
  \<open>triggerInitialPreload()\<close>. \<open>preloadExternalVideoUrls\<close> is an \<open>async\<close> function, so
  an exception inside it does not reach the caller.
\<close>

definition triggerInitialPreload :: "config \<Rightarrow> world \<Rightarrow> world" where
  "triggerInitialPreload cfg w =
     (let sl = slides w;
          current = currentIndex w
      in if length sl = 0 then w
         else
           let w1 = (case slideAt sl current of
                       None \<Rightarrow> w
                     | Some firstSlide \<Rightarrow>
                         if s_type (objs w firstSlide) = ''video''
                         then setTimeout StartBufferMonitoring w else w);
               w2 = preloadExternalVideoUrls sl current (URL_PRELOAD_COUNT cfg) w1
           in setTimeout (PreloadUpcomingVideos sl current) w2)"

definition shouldPreloadPosts :: "config \<Rightarrow> world \<Rightarrow> bool" where
  "shouldPreloadPosts cfg w =
     (int (length (slides w)) - currentIndex w < int (PRELOAD_THRESHOLD cfg)
      \<and> after w \<noteq> None \<and> \<not> loading w)"

text \<open>
  \<open>loadMorePosts()\<close> up to its request: the snapshot of the state taken before the
  request is what the answer is appended to.
\<close>

definition loadMorePosts :: "world \<Rightarrow> world" where
  "loadMorePosts w = w\<lparr> loading := True, postFetches := postFetches w @ [slides w] \<rparr>"

definition navigate :: "config \<Rightarrow> int \<Rightarrow> world \<Rightarrow> world" where
  "navigate cfg direction w =
     (let sl = slides w;
          newIdx = currentIndex w + direction
      in if newIdx < 0 \<or> newIdx \<ge> int (length sl) then w
         else
           let w1 = resetZoom w;
               w2 = stopBufferMonitoring w1;
               w3 = (case getActiveVideo w2 of None \<Rightarrow> w2 | Some video \<Rightarrow> pause video w2);
               w4 = w3\<lparr> currentIndex := newIdx, preloadingPaused := False \<rparr>;
               w5 = updateSlides w4;
               w6 = (if s_type (objs w5 (sl ! nat newIdx)) = ''video''
                     then setTimeout StartBufferMonitoring w5 else w5);
               w7 = preloadUpcomingMedia cfg w6;
               w8 = cleanupOldPreloads cfg newIdx w7
           in if shouldPreloadPosts cfg w8 then loadMorePosts w8 else w8)"

section \<open>The application module: loading a feed\<close>

text \<open>The slide objects that \<open>extractMediaFromPosts\<close> creates are new objects.\<close>

fun allocSlides :: "slide list \<Rightarrow> world \<Rightarrow> nat list \<times> world" where
  "allocSlides [] w = ([], w)"
| "allocSlides (d # ds) w =
     (case allocSlides ds (w\<lparr> nextObj := Suc (nextObj w), objs := (objs w)(nextObj w := d) \<rparr>) of
        (rs, w1) \<Rightarrow> (nextObj w # rs, w1))"

text \<open>
  \<open>loadSubreddit(subreddit)\<close> up to its request for the posts: the zoom is reset, five
  keys of the store are set and the image preload set is cleared. (The autoplay keys
  that \<open>stopAutoplay\<close> resets are not part of the model.)
\<close>

definition loadSubreddit :: "string \<Rightarrow> world \<Rightarrow> world" where
  "loadSubreddit name w =
     (let w1 = resetZoom w;
          w2 = w1\<lparr> subreddit := name, slides := [], currentIndex := 0, after := None,
                  loading := True \<rparr>;
          w3 = w2\<lparr> preloadedImages := {} \<rparr>
      in w3\<lparr> feedFetches := Suc (feedFetches w3) \<rparr>)"

text \<open>\<open>stateHelpers.resetForNewLoad()\<close>\<close>

definition resetForNewLoad :: "world \<Rightarrow> world" where
  "resetForNewLoad w =
     (let w1 = w\<lparr> slides := [], currentIndex := 0, after := None, loading := True \<rparr>
      in w1\<lparr> preloadedImages := {} \<rparr>)"

text \<open>
  The rest of \<open>loadSubreddit\<close>, run when the posts arrive (\<open>Some (slides, after)\<close>) or
  the request fails (\<open>None\<close>).
\<close>

definition subredditLoaded :: "(slide list \<times> string option) option \<Rightarrow> world \<Rightarrow> world" where
  "subredditLoaded result w =
     (if feedFetches w = 0 then w
      else let w0 = w\<lparr> feedFetches := feedFetches w - 1 \<rparr>
           in case result of
                None \<Rightarrow> w0\<lparr> loading := False \<rparr>
              | Some (newSlides, newAfter) \<Rightarrow>
                  (case allocSlides newSlides w0 of
                     (refs, w1) \<Rightarrow>
                       let w2 = w1\<lparr> slides := refs, after := newAfter, loading := False \<rparr>
                       in if length refs = 0 then w2 else updateSlides w2))"

text \<open>The rest of \<open>loadMorePosts\<close>, for the request with the \<open>n\<close>-th pending snapshot.\<close>

definition morePostsLoaded ::
  "nat \<Rightarrow> (slide list \<times> string option) option \<Rightarrow> world \<Rightarrow> world" where
  "morePostsLoaded n result w =
     (if n < length (postFetches w)
      then let snapshot = postFetches w ! n;
               w0 = w\<lparr> postFetches := take n (postFetches w) @ drop (Suc n) (postFetches w) \<rparr>
           in case result of
                None \<Rightarrow> w0\<lparr> loading := False \<rparr>
              | Some (newSlides, newAfter) \<Rightarrow>
                  (case allocSlides newSlides w0 of
                     (refs, w1) \<Rightarrow>
                       w1\<lparr> slides := snapshot @ refs, after := newAfter, loading := False \<rparr>)
      else w)"

section \<open>Events\<close>

text \<open>
  The program is driven by events: the calls of the exported operations, the timers and
  the interval of the buffer monitor, the answers of the network, the settling of
  \<open>play\<close> promises, the \<open>error\<close> event of an element, and what the browser does to a
  playing element (buffering, playback position) and to the clock.
\<close>

datatype event =
    Navigate int
  | LoadSubreddit string
  | SubredditLoaded "(slide list \<times> string option) option"
  | MorePostsLoaded nat "(slide list \<times> string option) option"
  | TimerFired nat
  | MonitorTick
  | AuthResponse nat "string option"
  | GifResponse nat "api_data option"
  | PlaySettled nat bool
  | VideoError nat
  | Progress nat "(real \<times> real) list" real
  | ClockAdvance nat
  | CallPreloadVideoElement nat int string
  | CallGetPreloadedVideo int
  | CallCleanupOldPreloads int
  | CallTriggerInitialPreload

definition runTask :: "config \<Rightarrow> task \<Rightarrow> world \<Rightarrow> world" where
  "runTask cfg t w =
     (case t of
        StartBufferMonitoring \<Rightarrow> startBufferMonitoring cfg w
      | PreloadUpcomingVideos sl current \<Rightarrow> preloadUpcomingVideos cfg sl current w)"

definition timerFired :: "config \<Rightarrow> nat \<Rightarrow> world \<Rightarrow> world" where
  "timerFired cfg n w =
     (if n < length (timers w)
      then runTask cfg (timers w ! n)
             (w\<lparr> timers := take n (timers w) @ drop (Suc n) (timers w) \<rparr>)
      else w)"

definition step :: "config \<Rightarrow> (string \<Rightarrow> string) \<Rightarrow> event \<Rightarrow> world \<Rightarrow> world" where
  "step cfg enc e w =
     (case e of
        Navigate direction \<Rightarrow> navigate cfg direction w
      | LoadSubreddit name \<Rightarrow> loadSubreddit name w
      | SubredditLoaded result \<Rightarrow> subredditLoaded result w
      | MorePostsLoaded n result \<Rightarrow> morePostsLoaded n result w
      | TimerFired n \<Rightarrow> timerFired cfg n w
      | MonitorTick \<Rightarrow> (if bufferMonitorInterval w then checkBuffer cfg w else w)
      | AuthResponse n token \<Rightarrow> authResponse n token w
      | GifResponse n data \<Rightarrow> gifResponse cfg enc n data w
      | PlaySettled n fulfilled \<Rightarrow> playSettled n fulfilled w
      | VideoError r \<Rightarrow> videoError r w
      | Progress r ranges t \<Rightarrow> setVideo r (\<lambda>v. v\<lparr> v_buffered := ranges, v_currentTime := t \<rparr>) w
      | ClockAdvance d \<Rightarrow> w\<lparr> clock := clock w + d \<rparr>
      | CallPreloadVideoElement data slideIndex videoUrl \<Rightarrow>
          preloadVideoElement cfg data slideIndex videoUrl w
      | CallGetPreloadedVideo slideIndex \<Rightarrow> snd (getPreloadedVideo slideIndex w)
      | CallCleanupOldPreloads current \<Rightarrow> cleanupOldPreloads cfg current w
      | CallTriggerInitialPreload \<Rightarrow> triggerInitialPreload cfg w)"

fun run :: "config \<Rightarrow> (string \<Rightarrow> string) \<Rightarrow> event list \<Rightarrow> world \<Rightarrow> world" where
  "run cfg enc [] w = w"
| "run cfg enc (e # es) w = run cfg enc es (step cfg enc e w)"

section \<open>Notions used in the statements\<close>

text \<open>The preload element cache holds no more entries than the configured capacity.\<close>

definition withinCapacity :: "config \<Rightarrow> world \<Rightarrow> bool" where
  "withinCapacity cfg w = (size_of (preloadedVideos w) \<le> MAX_CACHED_VIDEOS cfg)"

text \<open>The elements owned by the entries of a cache.\<close>

definition cachedElements :: "(int \<times> cached) list \<Rightarrow> nat set" where
  "cachedElements es = set (map (\<lambda>(p, c). element c) es)"

text \<open>The elements of the entries that lie more than the threshold behind \<open>current\<close>.\<close>

definition evicted :: "config \<Rightarrow> int \<Rightarrow> (int \<times> cached) list \<Rightarrow> nat set" where
  "evicted cfg current es =
     cachedElements (filter (\<lambda>(p, c). p < current - int (CLEANUP_THRESHOLD cfg)) es)"

text \<open>
  The entries of the cache own different elements, all of them created earlier; and the
  relation of a world to a later one in which entries have only been removed.
\<close>

definition ownsElements :: "world \<Rightarrow> bool" where
  "ownsElements w =
     (distinct (map (\<lambda>(p, c). element c) (preloadedVideos w))
      \<and> (\<forall>r \<in> cachedElements (preloadedVideos w). r < nextVideo w))"

definition shrinks :: "world \<Rightarrow> world \<Rightarrow> bool" where
  "shrinks w w' =
     (subseq (preloadedVideos w') (preloadedVideos w) \<and> nextVideo w \<le> nextVideo w')"

text \<open>
  The resolutions started between two worlds, and the property that no two resolutions
  in flight are for the same identifier.
\<close>

definition started :: "world \<Rightarrow> world \<Rightarrow> attempt list" where
  "started w w' = drop (length (attempts w)) (attempts w')"

definition noDuplicateResolutions :: "world \<Rightarrow> bool" where
  "noDuplicateResolutions w = distinct (map a_id (attempts w))"

text \<open>The navigation position, and what it indexes.\<close>

definition cursor :: "world \<Rightarrow> int \<times> nat list" where
  "cursor w = (currentIndex w, slides w)"

definition validIndex :: "world \<Rightarrow> bool" where
  "validIndex w = (0 \<le> currentIndex w \<and> currentIndex w < int (length (slides w)))"

text \<open>The position is a valid index whenever there are slides.\<close>

definition indexOk :: "world \<Rightarrow> bool" where
  "indexOk w = (slides w \<noteq> [] \<longrightarrow> validIndex w)"

text \<open>The events that deliver the answer of a feed request.\<close>

definition isFeedAnswer :: "event \<Rightarrow> bool" where
  "isFeedAnswer e =
     (case e of SubredditLoaded result \<Rightarrow> True | MorePostsLoaded n result \<Rightarrow> True | _ \<Rightarrow> False)"

text \<open>
  A world with no slides, empty caches and nothing in flight, and a configuration with a
  capacity of three elements, a cleanup threshold of two positions and buffer marks of
  four and eight seconds (the \<open>proxy\<close> and \<open>slideshow\<close> values are those of the
  sources); both serve as concrete inputs.
\<close>

definition emptyWorld :: world where
  "emptyWorld =
     \<lparr> slides = [],
       objs = (\<lambda>r. \<lparr> s_type = ''image'', s_url = None, s_needsResolve = False,
                     s_externalVideoId = None \<rparr>),
       nextObj = 0, currentIndex = 0, subreddit = [], after = None, loading = False,
       isZoomed = False, panX = 0, panY = 0, isPanning = False, videoMuted = False,
       preloadingPaused = False, preloadedVideos = [], preloadedVideoUrls = [],
       preloadingInProgress = {}, preloadedImages = {}, videos = (\<lambda>r. newVideo),
       nextVideo = 0, slideshow = Some [], bufferMonitorInterval = False, timers = [],
       plays = [], attempts = [], requests = [], feedFetches = 0, postFetches = [],
       externalVideoToken = None, externalVideoTokenExpiry = 0, clock = 0 \<rparr>"

definition imageSlide :: slide where
  "imageSlide = \<lparr> s_type = ''image'', s_url = Some ''https://i.example/x.jpg'',
                  s_needsResolve = False, s_externalVideoId = None \<rparr>"

definition externalSlide :: slide where
  "externalSlide = \<lparr> s_type = ''video'', s_url = None, s_needsResolve = True,
                     s_externalVideoId = Some ''abc'' \<rparr>"

text \<open>A feed of three images followed by an external video that is not resolved yet.\<close>

definition feedWorld :: world where
  "feedWorld = emptyWorld\<lparr> slides := [0, 1, 2, 3],
                 objs := (\<lambda>r. if r = 3 then externalSlide else imageSlide),
                 nextObj := 4 \<rparr>"

text \<open>The same feed with the identifier resolved and nothing else cached.\<close>

definition resolvedWorld :: world where
  "resolvedWorld = feedWorld\<lparr> preloadedVideoUrls := [(''abc'', ''https://v.example/abc.mp4'')] \<rparr>"

text \<open>
  The same feed with warm caches: the identifier resolved, an element preloaded for
  position 3, an image fetched, and preloading paused.
\<close>

definition warmWorld :: world where
  "warmWorld = feedWorld\<lparr> preloadedVideoUrls := [(''abc'', ''https://v.example/abc.mp4'')],
                 preloadedVideos := [(3, \<lparr> element = 0, url = ''https://v.example/abc.mp4'',
                                          timestamp = 0 \<rparr>)],
                 videos := (\<lambda>r. if r = 0
                    then newVideo\<lparr> v_src := ''https://v.example/abc.mp4'',
                           v_preload := ''metadata'', v_muted := True, v_loop := True,
                           v_offscreen := True, v_parent := InBody, v_onerror := Some 3 \<rparr>
                    else newVideo),
                 nextVideo := 1,
                 preloadedImages := {Some ''https://i.example/x.jpg''},
                 preloadingPaused := True \<rparr>"

text \<open>A slide with a video of its own, as a later feed may have at position 3.\<close>

definition nativeVideoSlide :: slide where
  "nativeVideoSlide = \<lparr> s_type = ''video'', s_url = Some ''https://v.example/new.mp4'',
                        s_needsResolve = False, s_externalVideoId = None \<rparr>"

definition exampleConfig :: config where
  "exampleConfig =
     \<lparr> MAX_CACHED_VIDEOS = 3, CLEANUP_THRESHOLD = 2, VIDEO_PRELOAD_COUNT = 2,
       URL_PRELOAD_COUNT = 5, PRELOAD_COUNT = 5, PRELOAD_THRESHOLD = 15,
       MIN_BUFFER_SECONDS = 4, HEALTHY_BUFFER_SECONDS = 8,
       PROXY_ENABLED = True,
       PROXY_URL = ''https://delicate-tree-1777.eliasroebl.workers.dev'' \<rparr>"

section \<open>Properties of the state store\<close>

text \<open>
  Claim C10. For every state and every updates object, \<open>setState(updates)\<close> leaves
  every state key that is not a key of \<open>updates\<close> unchanged and sets every key of
  \<open>updates\<close> to the value given there; the listeners of the store are kept.
\<close>

theorem setState_frame:
  "(\<forall>k. k \<notin> dom updates \<longrightarrow>
        state (setState st updates) k = state st k \<and> get (setState st updates) k = get st k)
   \<and> (\<forall>k v. updates k = Some v \<longrightarrow>
        state (setState st updates) k = Some v \<and> get (setState st updates) k = v)
   \<and> listeners (setState st updates) = listeners st"
  by (auto simp: get_def map_add_def setState_def spread_def Let_def split: option.splits)

theorem setState_frame_witness:
  "''preloadingPaused'' \<notin> dom [''currentIndex'' \<mapsto> JNum 4]
   \<and> [''currentIndex'' \<mapsto> JNum 4] ''currentIndex'' = Some (JNum 4)
   \<and> get (setState
        \<lparr> state = [''currentIndex'' \<mapsto> JNum 3, ''preloadingPaused'' \<mapsto> JBool True],
          listeners = [\<lambda>new prev. Some ''listener failed''], console_errors = [] \<rparr>
        [''currentIndex'' \<mapsto> JNum 4]) ''preloadingPaused'' = JBool True
   \<and> get (setState
        \<lparr> state = [''currentIndex'' \<mapsto> JNum 3, ''preloadingPaused'' \<mapsto> JBool True],
          listeners = [\<lambda>new prev. Some ''listener failed''], console_errors = [] \<rparr>
        [''currentIndex'' \<mapsto> JNum 4]) ''currentIndex'' = JNum 4"
proof -
  let ?u = "[''currentIndex'' \<mapsto> JNum 4]"
  let ?st = "\<lparr> state = [''currentIndex'' \<mapsto> JNum 3, ''preloadingPaused'' \<mapsto> JBool True],
               listeners = [\<lambda>new prev. Some ''listener failed''], console_errors = [] \<rparr>"
  note f = setState_frame [of ?u ?st]
  have a: "''preloadingPaused'' \<notin> dom ?u" by simp
  have b: "?u ''currentIndex'' = Some (JNum 4)" by simp
  from f a have c: "get (setState ?st ?u) ''preloadingPaused'' = get ?st ''preloadingPaused''"
    by blast
  from f b have d: "get (setState ?st ?u) ''currentIndex'' = JNum 4"
    by blast
  have e: "get ?st ''preloadingPaused'' = JBool True" by (simp add: get_def)
  from a b c d e show ?thesis by simp
qed

section \<open>Properties of the preload element cache\<close>

lemma update_absent: "map_of al k = None \<Longrightarrow> AList.update k v al = al @ [(k, v)]"
  by (induction al) (auto split: if_splits)

lemma length_delete: "length (AList.delete k al) \<le> length al"
  by (simp add: AList.delete_eq)

text \<open>
  Claim C2. \<open>preloadVideoElement\<close> changes nothing (no entry, no element) when an entry
  exists at the index, or the cache has reached the capacity, or preloading is paused;
  otherwise it creates one element and appends one entry under the index, which owns
  that element, and no other element changes.
\<close>

theorem preloadVideoElement_admission:
  "(has (preloadedVideos w) slideIndex \<or> size_of (preloadedVideos w) \<ge> MAX_CACHED_VIDEOS cfg
      \<or> preloadingPaused w
     \<longrightarrow> preloadVideoElement cfg d slideIndex u w = w)
   \<and> (\<not> has (preloadedVideos w) slideIndex \<and> size_of (preloadedVideos w) < MAX_CACHED_VIDEOS cfg
      \<and> \<not> preloadingPaused w
     \<longrightarrow> preloadedVideos (preloadVideoElement cfg d slideIndex u w) =
           preloadedVideos w @
             [(slideIndex, \<lparr> element = nextVideo w, url = u, timestamp = clock w \<rparr>)]
         \<and> size_of (preloadedVideos (preloadVideoElement cfg d slideIndex u w)) =
             Suc (size_of (preloadedVideos w))
         \<and> nextVideo (preloadVideoElement cfg d slideIndex u w) = Suc (nextVideo w)
         \<and> (\<forall>r. r \<noteq> nextVideo w \<longrightarrow>
               videos (preloadVideoElement cfg d slideIndex u w) r = videos w r))"
  by (auto simp: preloadVideoElement_def Let_def has_def size_of_def update_absent
        playThenPause_def play_def setVideo_def)

theorem preloadVideoElement_admission_witness:
  "preloadVideoElement exampleConfig 0 1 ''u'' (emptyWorld\<lparr> preloadingPaused := True \<rparr>)
     = emptyWorld\<lparr> preloadingPaused := True \<rparr>
   \<and> preloadedVideos (preloadVideoElement exampleConfig 0 1 ''u'' emptyWorld)
     = [(1, \<lparr> element = 0, url = ''u'', timestamp = 0 \<rparr>)]"
  using preloadVideoElement_admission
          [where w = "emptyWorld\<lparr> preloadingPaused := True \<rparr>" and cfg = exampleConfig
             and slideIndex = 1 and d = 0 and u = "''u''"]
        preloadVideoElement_admission
          [where w = emptyWorld and cfg = exampleConfig
             and slideIndex = 1 and d = 0 and u = "''u''"]
  by (simp add: emptyWorld_def exampleConfig_def has_def size_of_def)

lemma cleanupLoop_cache:
  "preloadedVideos (cleanupLoop cfg cur es w) =
     filter (\<lambda>(p, c). \<not> (p \<in> fst ` set es \<and> p < cur - int (CLEANUP_THRESHOLD cfg)))
       (preloadedVideos w)"
proof (induction es arbitrary: w)
  case Nil
  then show ?case by simp
next
  case (Cons e es)
  obtain p c where e: "e = (p, c)" by (cases e)
  show ?case
    unfolding e
    by (auto simp: Cons.IH removeEl_def setVideo_def AList.delete_eq intro!: filter_cong)
qed

lemma cleanupLoop_videos:
  "videos (cleanupLoop cfg cur es w) r =
     (if r \<in> evicted cfg cur es
      then (videos w r)\<lparr> v_src := [], v_parent := NoParent \<rparr> else videos w r)"
proof (induction es arbitrary: w)
  case Nil
  then show ?case by (simp add: evicted_def cachedElements_def)
next
  case (Cons e es)
  obtain p c where e: "e = (p, c)" by (cases e)
  have ev: "evicted cfg cur ((p, c) # es) =
      (if p < cur - int (CLEANUP_THRESHOLD cfg) then {element c} else {}) \<union> evicted cfg cur es"
    by (simp add: evicted_def cachedElements_def)
  show ?case
    unfolding e
    by (simp add: Cons.IH ev removeEl_def setVideo_def)
qed

text \<open>
  Claim C4. \<open>cleanupOldPreloads(currentIndex)\<close> removes from the cache exactly the
  entries whose position is below \<open>currentIndex - threshold\<close>; the elements of those
  entries lose their source and are removed from the document, and no other element
  changes; every entry at or ahead of \<open>currentIndex\<close> stays in the cache, and its
  element is as before where the entries own different elements.
\<close>

theorem cleanupOldPreloads_evicts:
  "preloadedVideos (cleanupOldPreloads cfg cur w) =
     filter (\<lambda>(p, c). \<not> p < cur - int (CLEANUP_THRESHOLD cfg)) (preloadedVideos w)
   \<and> (\<forall>r. videos (cleanupOldPreloads cfg cur w) r =
         (if r \<in> evicted cfg cur (preloadedVideos w)
          then (videos w r)\<lparr> v_src := [], v_parent := NoParent \<rparr> else videos w r))
   \<and> (\<forall>p c. (p, c) \<in> set (preloadedVideos w) \<and> p \<ge> cur \<longrightarrow>
         (p, c) \<in> set (preloadedVideos (cleanupOldPreloads cfg cur w)))
   \<and> (distinct (map (\<lambda>(p, c). element c) (preloadedVideos w)) \<longrightarrow>
        (\<forall>p c. (p, c) \<in> set (preloadedVideos w) \<and> p \<ge> cur \<longrightarrow>
           videos (cleanupOldPreloads cfg cur w) (element c) = videos w (element c)))"
proof -
  have "filter (\<lambda>(p, c). \<not> (p \<in> fst ` set (preloadedVideos w)
            \<and> p < cur - int (CLEANUP_THRESHOLD cfg))) (preloadedVideos w) =
        filter (\<lambda>(p, c). \<not> p < cur - int (CLEANUP_THRESHOLD cfg)) (preloadedVideos w)"
    by (rule filter_cong) force+
  moreover have "element c \<notin> evicted cfg cur (preloadedVideos w)"
    if d: "distinct (map (\<lambda>(p, c). element c) (preloadedVideos w))"
      and m: "(p, c) \<in> set (preloadedVideos w)" and a: "p \<ge> cur" for p c
  proof
    assume "element c \<in> evicted cfg cur (preloadedVideos w)"
    then obtain p' c' where e: "(p', c') \<in> set (preloadedVideos w)"
        "p' < cur - int (CLEANUP_THRESHOLD cfg)" "element c' = element c"
      by (auto simp: evicted_def cachedElements_def)
    from d have "inj_on (\<lambda>(p, c). element c) (set (preloadedVideos w))"
      by (simp add: distinct_map)
    from inj_onD [OF this _ e(1) m] e(3) have "(p', c') = (p, c)" by simp
    with e(2) a show False by simp
  qed
  ultimately show ?thesis
    by (auto simp: cleanupOldPreloads_def cleanupLoop_cache cleanupLoop_videos)
qed

theorem cleanupOldPreloads_evicts_witness:
  "distinct (map (\<lambda>(p, c). element c)
      [(0, \<lparr> element = 0, url = ''a'', timestamp = 0 \<rparr>),
       (1, \<lparr> element = 1, url = ''b'', timestamp = 0 \<rparr>),
       (2, \<lparr> element = 2, url = ''c'', timestamp = 0 \<rparr>),
       (5, \<lparr> element = 3, url = ''d'', timestamp = 0 \<rparr>)])
   \<and> preloadedVideos (cleanupOldPreloads exampleConfig 4
      (emptyWorld\<lparr> preloadedVideos :=
         [(0, \<lparr> element = 0, url = ''a'', timestamp = 0 \<rparr>),
          (1, \<lparr> element = 1, url = ''b'', timestamp = 0 \<rparr>),
          (2, \<lparr> element = 2, url = ''c'', timestamp = 0 \<rparr>),
          (5, \<lparr> element = 3, url = ''d'', timestamp = 0 \<rparr>)] \<rparr>))
     = [(2, \<lparr> element = 2, url = ''c'', timestamp = 0 \<rparr>),
        (5, \<lparr> element = 3, url = ''d'', timestamp = 0 \<rparr>)]
   \<and> v_parent (videos (cleanupOldPreloads exampleConfig 4
      (emptyWorld\<lparr> preloadedVideos :=
         [(0, \<lparr> element = 0, url = ''a'', timestamp = 0 \<rparr>),
          (1, \<lparr> element = 1, url = ''b'', timestamp = 0 \<rparr>),
          (2, \<lparr> element = 2, url = ''c'', timestamp = 0 \<rparr>),
          (5, \<lparr> element = 3, url = ''d'', timestamp = 0 \<rparr>)],
        videos := (\<lambda>r. newVideo\<lparr> v_src := ''u'', v_parent := InBody \<rparr>) \<rparr>)) 1) = NoParent
   \<and> videos (cleanupOldPreloads exampleConfig 4
      (emptyWorld\<lparr> preloadedVideos :=
         [(0, \<lparr> element = 0, url = ''a'', timestamp = 0 \<rparr>),
          (1, \<lparr> element = 1, url = ''b'', timestamp = 0 \<rparr>),
          (2, \<lparr> element = 2, url = ''c'', timestamp = 0 \<rparr>),
          (5, \<lparr> element = 3, url = ''d'', timestamp = 0 \<rparr>)],
        videos := (\<lambda>r. newVideo\<lparr> v_src := ''u'', v_parent := InBody \<rparr>) \<rparr>)) 3
     = newVideo\<lparr> v_src := ''u'', v_parent := InBody \<rparr>"
  using cleanupOldPreloads_evicts
    [where cfg = exampleConfig and cur = 4 and w = "emptyWorld\<lparr> preloadedVideos :=
         [(0, \<lparr> element = 0, url = ''a'', timestamp = 0 \<rparr>),
          (1, \<lparr> element = 1, url = ''b'', timestamp = 0 \<rparr>),
          (2, \<lparr> element = 2, url = ''c'', timestamp = 0 \<rparr>),
          (5, \<lparr> element = 3, url = ''d'', timestamp = 0 \<rparr>)] \<rparr>"]
    cleanupOldPreloads_evicts
    [where cfg = exampleConfig and cur = 4 and w = "emptyWorld\<lparr> preloadedVideos :=
         [(0, \<lparr> element = 0, url = ''a'', timestamp = 0 \<rparr>),
          (1, \<lparr> element = 1, url = ''b'', timestamp = 0 \<rparr>),
          (2, \<lparr> element = 2, url = ''c'', timestamp = 0 \<rparr>),
          (5, \<lparr> element = 3, url = ''d'', timestamp = 0 \<rparr>)],
        videos := (\<lambda>r. newVideo\<lparr> v_src := ''u'', v_parent := InBody \<rparr>) \<rparr>"]
  by (simp add: exampleConfig_def evicted_def cachedElements_def)

section \<open>Properties of the buffer health monitor\<close>

lemma pauseLoop_frame:
  "preloadedVideos (pauseLoop es w) = preloadedVideos w"
  "plays (pauseLoop es w) = plays w"
  "currentIndex (pauseLoop es w) = currentIndex w"
  "preloadingPaused (pauseLoop es w) = preloadingPaused w"
  "slides (pauseLoop es w) = slides w"
  by (induction es w rule: pauseLoop.induct; simp add: pause_def setVideo_def)+

lemma pauseLoop_videos:
  "videos (pauseLoop es w) r =
     (if r \<in> cachedElements es then (videos w r)\<lparr> v_paused := True \<rparr> else videos w r)"
proof (induction es w rule: pauseLoop.induct)
  case (1 w)
  then show ?case by (simp add: cachedElements_def)
next
  case (2 slideIndex c rest w)
  have ce: "cachedElements ((slideIndex, c) # rest) = insert (element c) (cachedElements rest)"
    by (simp add: cachedElements_def)
  show ?case
    by (simp add: "2.IH" ce pause_def setVideo_def)
qed

lemma pauseAll_props:
  assumes "\<not> preloadingPaused w"
  shows "preloadingPaused (pauseAllPreloads w)"
    and "preloadedVideos (pauseAllPreloads w) = preloadedVideos w"
    and "plays (pauseAllPreloads w) = plays w"
    and "videos (pauseAllPreloads w) r =
            (if r \<in> cachedElements (preloadedVideos w)
             then (videos w r)\<lparr> v_paused := True \<rparr> else videos w r)"
  using assms by (simp_all add: pauseAllPreloads_def pauseLoop_videos pauseLoop_frame)

lemma resume_props:
  assumes "preloadingPaused w"
  shows "\<not> preloadingPaused (resumePreloads w)"
    and "preloadedVideos (resumePreloads w) = preloadedVideos w"
    and "map_of (preloadedVideos w) (currentIndex w + 1) = None \<Longrightarrow>
           videos (resumePreloads w) = videos w \<and> plays (resumePreloads w) = plays w"
    and "map_of (preloadedVideos w) (currentIndex w + 1) = Some c \<Longrightarrow>
           plays (resumePreloads w) = plays w @ [element c]
           \<and> videos (resumePreloads w) =
               (videos w)(element c := (videos w (element c))\<lparr> v_paused := False \<rparr>)"
  using assms
  by (simp_all add: resumePreloads_def Let_def playThenPause_def play_def setVideo_def
        split: option.splits)

lemma resume_then_settled:
  assumes "preloadingPaused w" and "map_of (preloadedVideos w) (currentIndex w + 1) = Some c"
  shows "videos (playSettled (length (plays w)) True (resumePreloads w)) =
           (videos w)(element c := (videos w (element c))\<lparr> v_paused := True \<rparr>)"
    and "plays (playSettled (length (plays w)) True (resumePreloads w)) = plays w"
    and "videos (playSettled (length (plays w)) False (resumePreloads w)) =
           (videos w)(element c := (videos w (element c))\<lparr> v_paused := False \<rparr>)"
    and "plays (playSettled (length (plays w)) False (resumePreloads w)) = plays w"
  using resume_props(4) [OF assms]
  by (simp_all add: playSettled_def Let_def pause_def setVideo_def)

text \<open>
  Claim C8. On the transition to Starved (\<open>pauseAllPreloads\<close> with the flag clear) the
  flag is set and every element owned by a cache entry is paused, nothing else changes
  in the cache or in other elements. On the transition to Healthy (\<open>resumePreloads\<close>
  with the flag set) the flag is cleared and only the element of the entry at
  \<open>currentIndex + 1\<close>, if there is one, is nudged: it is played, with a pause chained
  to the promise of the play, so that it is paused again as soon as that promise is
  fulfilled (and left as it is if the promise is rejected); every other element is as
  before throughout.
\<close>

theorem pause_all_resume_next:
  "(\<not> preloadingPaused w \<longrightarrow>
      preloadingPaused (pauseAllPreloads w)
      \<and> preloadedVideos (pauseAllPreloads w) = preloadedVideos w
      \<and> plays (pauseAllPreloads w) = plays w
      \<and> (\<forall>r. videos (pauseAllPreloads w) r =
            (if r \<in> cachedElements (preloadedVideos w)
             then (videos w r)\<lparr> v_paused := True \<rparr> else videos w r)))
   \<and> (preloadingPaused w \<longrightarrow>
      \<not> preloadingPaused (resumePreloads w)
      \<and> preloadedVideos (resumePreloads w) = preloadedVideos w
      \<and> (case map_of (preloadedVideos w) (currentIndex w + 1) of
            None \<Rightarrow> videos (resumePreloads w) = videos w \<and> plays (resumePreloads w) = plays w
          | Some c \<Rightarrow>
              plays (resumePreloads w) = plays w @ [element c]
              \<and> videos (resumePreloads w) =
                  (videos w)(element c := (videos w (element c))\<lparr> v_paused := False \<rparr>)
              \<and> videos (playSettled (length (plays w)) True (resumePreloads w)) =
                  (videos w)(element c := (videos w (element c))\<lparr> v_paused := True \<rparr>)
              \<and> plays (playSettled (length (plays w)) True (resumePreloads w)) = plays w
              \<and> videos (playSettled (length (plays w)) False (resumePreloads w)) =
                  videos (resumePreloads w)
              \<and> plays (playSettled (length (plays w)) False (resumePreloads w)) = plays w))"
proof (intro conjI impI)
  assume p: "preloadingPaused w"
  show "case map_of (preloadedVideos w) (currentIndex w + 1) of
            None \<Rightarrow> videos (resumePreloads w) = videos w \<and> plays (resumePreloads w) = plays w
          | Some c \<Rightarrow>
              plays (resumePreloads w) = plays w @ [element c]
              \<and> videos (resumePreloads w) =
                  (videos w)(element c := (videos w (element c))\<lparr> v_paused := False \<rparr>)
              \<and> videos (playSettled (length (plays w)) True (resumePreloads w)) =
                  (videos w)(element c := (videos w (element c))\<lparr> v_paused := True \<rparr>)
              \<and> plays (playSettled (length (plays w)) True (resumePreloads w)) = plays w
              \<and> videos (playSettled (length (plays w)) False (resumePreloads w)) =
                  videos (resumePreloads w)
              \<and> plays (playSettled (length (plays w)) False (resumePreloads w)) = plays w"
  proof (cases "map_of (preloadedVideos w) (currentIndex w + 1)")
    case None
    with resume_props(3) [OF p] show ?thesis by simp
  next
    case (Some c)
    with resume_props(4) [OF p Some] resume_then_settled [OF p Some] show ?thesis by simp
  qed
qed (simp_all add: pauseAll_props resume_props)

theorem pause_all_resume_next_witness:
  "\<not> preloadingPaused (emptyWorld\<lparr> preloadedVideos :=
         [(1, \<lparr> element = 0, url = ''a'', timestamp = 0 \<rparr>),
          (2, \<lparr> element = 1, url = ''b'', timestamp = 0 \<rparr>)],
        videos := (\<lambda>r. newVideo\<lparr> v_paused := False \<rparr>) \<rparr>)
   \<and> v_paused (videos (pauseAllPreloads (emptyWorld\<lparr> preloadedVideos :=
         [(1, \<lparr> element = 0, url = ''a'', timestamp = 0 \<rparr>),
          (2, \<lparr> element = 1, url = ''b'', timestamp = 0 \<rparr>)],
        videos := (\<lambda>r. newVideo\<lparr> v_paused := False \<rparr>) \<rparr>)) 1)
   \<and> \<not> v_paused (videos (pauseAllPreloads (emptyWorld\<lparr> preloadedVideos :=
         [(1, \<lparr> element = 0, url = ''a'', timestamp = 0 \<rparr>),
          (2, \<lparr> element = 1, url = ''b'', timestamp = 0 \<rparr>)],
        videos := (\<lambda>r. newVideo\<lparr> v_paused := False \<rparr>) \<rparr>)) 2)
   \<and> preloadingPaused (emptyWorld\<lparr> preloadingPaused := True, preloadedVideos :=
         [(1, \<lparr> element = 0, url = ''a'', timestamp = 0 \<rparr>),
          (2, \<lparr> element = 1, url = ''b'', timestamp = 0 \<rparr>)] \<rparr>)
   \<and> plays (resumePreloads (emptyWorld\<lparr> preloadingPaused := True, preloadedVideos :=
         [(1, \<lparr> element = 0, url = ''a'', timestamp = 0 \<rparr>),
          (2, \<lparr> element = 1, url = ''b'', timestamp = 0 \<rparr>)] \<rparr>)) = [0]
   \<and> \<not> v_paused (videos (resumePreloads (emptyWorld\<lparr> preloadingPaused := True, preloadedVideos :=
         [(1, \<lparr> element = 0, url = ''a'', timestamp = 0 \<rparr>),
          (2, \<lparr> element = 1, url = ''b'', timestamp = 0 \<rparr>)] \<rparr>)) 0)
   \<and> v_paused (videos (resumePreloads (emptyWorld\<lparr> preloadingPaused := True, preloadedVideos :=
         [(1, \<lparr> element = 0, url = ''a'', timestamp = 0 \<rparr>),
          (2, \<lparr> element = 1, url = ''b'', timestamp = 0 \<rparr>)] \<rparr>)) 1)
   \<and> v_paused (videos (playSettled 0 True (resumePreloads (emptyWorld\<lparr> preloadingPaused := True,
        preloadedVideos :=
         [(1, \<lparr> element = 0, url = ''a'', timestamp = 0 \<rparr>),
          (2, \<lparr> element = 1, url = ''b'', timestamp = 0 \<rparr>)] \<rparr>))) 0)
   \<and> plays (playSettled 0 True (resumePreloads (emptyWorld\<lparr> preloadingPaused := True,
        preloadedVideos :=
         [(1, \<lparr> element = 0, url = ''a'', timestamp = 0 \<rparr>),
          (2, \<lparr> element = 1, url = ''b'', timestamp = 0 \<rparr>)] \<rparr>))) = []"
  using pause_all_resume_next
          [where w = "emptyWorld\<lparr> preloadedVideos :=
             [(1, \<lparr> element = 0, url = ''a'', timestamp = 0 \<rparr>),
              (2, \<lparr> element = 1, url = ''b'', timestamp = 0 \<rparr>)],
             videos := (\<lambda>r. newVideo\<lparr> v_paused := False \<rparr>) \<rparr>"]
        pause_all_resume_next
          [where w = "emptyWorld\<lparr> preloadingPaused := True, preloadedVideos :=
             [(1, \<lparr> element = 0, url = ''a'', timestamp = 0 \<rparr>),
              (2, \<lparr> element = 1, url = ''b'', timestamp = 0 \<rparr>)] \<rparr>"]
  by (simp add: emptyWorld_def cachedElements_def newVideo_def)

lemma checkBuffer_paused:
  assumes "getActiveVideo w = Some r"
  shows "preloadingPaused (checkBuffer cfg w) =
          (if preloadingPaused w
           then \<not> getBufferHealth (Some (videos w r)) > HEALTHY_BUFFER_SECONDS cfg
           else getBufferHealth (Some (videos w r)) < MIN_BUFFER_SECONDS cfg)"
  using assms
  by (simp add: checkBuffer_def Let_def pauseAll_props resume_props)

lemma checkBuffer_no_video: "getActiveVideo w = None \<Longrightarrow> checkBuffer cfg w = w"
  by (simp add: checkBuffer_def)

text \<open>
  Claim C3. A buffer check without an active video changes nothing. With an active
  video and the monitor Starved (flag set), the check returns to Healthy (flag clear)
  if and only if the buffered-ahead duration of the active video is greater than
  \<open>HEALTHY_BUFFER_SECONDS\<close>; and whatever the flag, a buffered-ahead duration from
  \<open>MIN_BUFFER_SECONDS\<close> to \<open>HEALTHY_BUFFER_SECONDS\<close> leaves the world, and so the
  flag, as it is.
\<close>

theorem checkBuffer_hysteresis:
  "(getActiveVideo w = None \<longrightarrow> checkBuffer cfg w = w)
   \<and> (getActiveVideo w = Some r \<longrightarrow>
        (preloadingPaused w \<longrightarrow>
          (\<not> preloadingPaused (checkBuffer cfg w)
             \<longleftrightarrow> getBufferHealth (Some (videos w r)) > HEALTHY_BUFFER_SECONDS cfg))
        \<and> (MIN_BUFFER_SECONDS cfg \<le> getBufferHealth (Some (videos w r))
              \<and> getBufferHealth (Some (videos w r)) \<le> HEALTHY_BUFFER_SECONDS cfg
            \<longrightarrow> checkBuffer cfg w = w))"
proof (intro conjI impI)
  assume "getActiveVideo w = None"
  then show "checkBuffer cfg w = w" by (rule checkBuffer_no_video)
next
  assume "getActiveVideo w = Some r"
    and "MIN_BUFFER_SECONDS cfg \<le> getBufferHealth (Some (videos w r))
            \<and> getBufferHealth (Some (videos w r)) \<le> HEALTHY_BUFFER_SECONDS cfg"
  then show "checkBuffer cfg w = w"
    by (simp add: checkBuffer_def Let_def)
next
  assume a: "getActiveVideo w = Some r" and "preloadingPaused w"
  then show "(\<not> preloadingPaused (checkBuffer cfg w))
             = (getBufferHealth (Some (videos w r)) > HEALTHY_BUFFER_SECONDS cfg)"
    by (simp add: checkBuffer_paused [OF a])
qed

theorem checkBuffer_hysteresis_witness:
  "getActiveVideo (emptyWorld\<lparr> preloadingPaused := True,
        slideshow := Some [\<lparr> position = ''active'', media = Some 0 \<rparr>],
        videos := (\<lambda>r. newVideo\<lparr> v_buffered := [(0, 9)], v_currentTime := 3 \<rparr>) \<rparr>) = Some 0
   \<and> getBufferHealth (Some (newVideo\<lparr> v_buffered := [(0, 9)], v_currentTime := 3 \<rparr>)) = 6
   \<and> preloadingPaused (checkBuffer exampleConfig (emptyWorld\<lparr> preloadingPaused := True,
        slideshow := Some [\<lparr> position = ''active'', media = Some 0 \<rparr>],
        videos := (\<lambda>r. newVideo\<lparr> v_buffered := [(0, 9)], v_currentTime := 3 \<rparr>) \<rparr>))
   \<and> getActiveVideo (emptyWorld\<lparr> preloadingPaused := True,
        slideshow := Some [\<lparr> position = ''active'', media = Some 0 \<rparr>],
        videos := (\<lambda>r. newVideo\<lparr> v_buffered := [(0, 12)], v_currentTime := 3 \<rparr>) \<rparr>) = Some 0
   \<and> \<not> preloadingPaused (checkBuffer exampleConfig (emptyWorld\<lparr> preloadingPaused := True,
        slideshow := Some [\<lparr> position = ''active'', media = Some 0 \<rparr>],
        videos := (\<lambda>r. newVideo\<lparr> v_buffered := [(0, 12)], v_currentTime := 3 \<rparr>) \<rparr>))"
proof -
  let ?w = "\<lambda>e. emptyWorld\<lparr> preloadingPaused := True,
        slideshow := Some [\<lparr> position = ''active'', media = Some 0 \<rparr>],
        videos := (\<lambda>r. newVideo\<lparr> v_buffered := [(0, e)], v_currentTime := 3 \<rparr>) \<rparr>"
  have a: "getActiveVideo (?w e) = Some 0" for e
    by (simp add: getActiveVideo_def emptyWorld_def)
  have h: "getBufferHealth (Some (newVideo\<lparr> v_buffered := [(0, 9)], v_currentTime := 3 \<rparr>)) = 6"
          "getBufferHealth (Some (newVideo\<lparr> v_buffered := [(0, 12)], v_currentTime := 3 \<rparr>)) = 9"
    by (simp_all add: getBufferHealth_def newVideo_def)
  from checkBuffer_hysteresis [where w = "?w 9" and r = 0 and cfg = exampleConfig] a [of 9] h(1)
  have b: "preloadingPaused (checkBuffer exampleConfig (?w 9))"
    by (simp add: exampleConfig_def emptyWorld_def)
  from checkBuffer_hysteresis [where w = "?w 12" and r = 0 and cfg = exampleConfig] a [of 12] h(2)
  have c: "\<not> preloadingPaused (checkBuffer exampleConfig (?w 12))"
    by (simp add: exampleConfig_def emptyWorld_def)
  from a [of 9] a [of 12] h(1) b c show ?thesis by simp
qed

section \<open>The capacity of the preload element cache\<close>

subsection \<open>Operations that leave the cache alone\<close>

lemma cache_setVideo [simp]: "preloadedVideos (setVideo r f w) = preloadedVideos w"
  by (simp add: setVideo_def)

lemma cache_pause [simp]: "preloadedVideos (pause r w) = preloadedVideos w"
  by (simp add: pause_def)

lemma cache_play [simp]: "preloadedVideos (play r w) = preloadedVideos w"
  by (simp add: play_def)

lemma cache_playThenPause [simp]: "preloadedVideos (playThenPause r w) = preloadedVideos w"
  by (simp add: playThenPause_def)

lemma cache_playSettled [simp]: "preloadedVideos (playSettled n b w) = preloadedVideos w"
  by (simp add: playSettled_def Let_def)

lemma cache_removeEl [simp]: "preloadedVideos (removeEl r w) = preloadedVideos w"
  by (simp add: removeEl_def)

lemma cache_pauseAllPreloads [simp]: "preloadedVideos (pauseAllPreloads w) = preloadedVideos w"
  by (simp add: pauseAllPreloads_def pauseLoop_frame)

lemma cache_resumePreloads [simp]: "preloadedVideos (resumePreloads w) = preloadedVideos w"
  by (simp add: resumePreloads_def Let_def split: option.splits)

lemma cache_stopBufferMonitoring [simp]:
  "preloadedVideos (stopBufferMonitoring w) = preloadedVideos w"
  by (simp add: stopBufferMonitoring_def)

lemma cache_checkBuffer [simp]: "preloadedVideos (checkBuffer cfg w) = preloadedVideos w"
  by (simp add: checkBuffer_def Let_def split: option.splits)

lemma cache_startBufferMonitoring [simp]:
  "preloadedVideos (startBufferMonitoring cfg w) = preloadedVideos w"
  by (simp add: startBufferMonitoring_def)

lemma cache_fetchExternalVideoUrl [simp]:
  "preloadedVideos (fetchExternalVideoUrl i k w) = preloadedVideos w"
  by (simp add: fetchExternalVideoUrl_def)

lemma cache_runCallback [simp]: "preloadedVideos (runCallback k u w) = preloadedVideos w"
  by (simp add: runCallback_def Let_def split: callback.splits option.splits)

lemma cache_dropAttempt [simp]: "preloadedVideos (dropAttempt n w) = preloadedVideos w"
  by (simp add: dropAttempt_def)

lemma cache_authResponse [simp]: "preloadedVideos (authResponse n t w) = preloadedVideos w"
  by (simp add: authResponse_def Let_def)

lemma cache_gifResponse [simp]: "preloadedVideos (gifResponse cfg enc n d w) = preloadedVideos w"
  by (simp add: gifResponse_def)

lemma cache_preloadUrlsLoop [simp]: "preloadedVideos (preloadUrlsLoop sl is w) = preloadedVideos w"
  by (induction sl "is" w rule: preloadUrlsLoop.induct)
     (auto simp: Let_def split: option.splits)

lemma cache_preloadExternalVideoUrls [simp]:
  "preloadedVideos (preloadExternalVideoUrls sl s c w) = preloadedVideos w"
  by (simp add: preloadExternalVideoUrls_def)

lemma cache_resetZoom [simp]: "preloadedVideos (resetZoom w) = preloadedVideos w"
  by (simp add: resetZoom_def)

lemma cache_preloadImagesLoop [simp]:
  "preloadedVideos (preloadImagesLoop sl is w) = preloadedVideos w"
  by (induction sl "is" w rule: preloadImagesLoop.induct)
     (auto simp: Let_def split: option.splits)

lemma cache_setTimeout [simp]: "preloadedVideos (setTimeout t w) = preloadedVideos w"
  by (simp add: setTimeout_def)

lemma cache_preloadUpcomingMedia [simp]:
  "preloadedVideos (preloadUpcomingMedia cfg w) = preloadedVideos w"
  by (simp add: preloadUpcomingMedia_def Let_def)

lemma cache_triggerInitialPreload [simp]:
  "preloadedVideos (triggerInitialPreload cfg w) = preloadedVideos w"
  by (simp add: triggerInitialPreload_def Let_def split: option.splits)

lemma cache_loadMorePosts [simp]: "preloadedVideos (loadMorePosts w) = preloadedVideos w"
  by (simp add: loadMorePosts_def)

lemma cache_loadSubreddit [simp]: "preloadedVideos (loadSubreddit name w) = preloadedVideos w"
  by (simp add: loadSubreddit_def Let_def)

lemma cache_allocSlides:
  "allocSlides ds w = (rs, w1) \<Longrightarrow> preloadedVideos w1 = preloadedVideos w"
proof (induction ds arbitrary: w rs w1)
  case Nil
  then show ?case by simp
next
  case (Cons d ds)
  let ?w = "w\<lparr> nextObj := Suc (nextObj w), objs := (objs w)(nextObj w := d) \<rparr>"
  obtain rs' w' where al: "allocSlides ds ?w = (rs', w')"
    by (cases "allocSlides ds ?w")
  from Cons.IH [OF al] have "preloadedVideos w' = preloadedVideos w" by simp
  moreover from Cons.prems al have "w1 = w'" by simp
  ultimately show ?case by simp
qed

lemma cache_morePostsLoaded [simp]:
  "preloadedVideos (morePostsLoaded n res w) = preloadedVideos w"
proof (cases res)
  case None
  then show ?thesis by (simp add: morePostsLoaded_def Let_def)
next
  case (Some a)
  obtain ns na where a: "a = (ns, na)" by (cases a)
  let ?w = "w\<lparr> postFetches := take n (postFetches w) @ drop (Suc n) (postFetches w) \<rparr>"
  obtain refs w1 where al: "allocSlides ns ?w = (refs, w1)"
    by (cases "allocSlides ns ?w")
  from cache_allocSlides [OF al]
  have "preloadedVideos w1 = preloadedVideos w" by simp
  then show ?thesis by (simp add: morePostsLoaded_def Let_def Some a al)
qed

subsection \<open>Operations that shrink or grow the cache\<close>

lemma cap_shrink:
  "length (preloadedVideos w') \<le> length (preloadedVideos w) \<Longrightarrow>
   withinCapacity cfg w \<Longrightarrow> withinCapacity cfg w'"
  by (simp add: withinCapacity_def size_of_def)

lemma cap_preloadVideoElement:
  "withinCapacity cfg w \<Longrightarrow> withinCapacity cfg (preloadVideoElement cfg d i u w)"
  by (simp add: withinCapacity_def preloadVideoElement_def Let_def has_def size_of_def
        update_absent)

lemma len_videoError: "length (preloadedVideos (videoError r w)) \<le> length (preloadedVideos w)"
  by (simp add: videoError_def length_delete split: option.splits)

lemma len_getPreloadedVideo:
  "length (preloadedVideos (snd (getPreloadedVideo i w))) \<le> length (preloadedVideos w)"
  by (simp add: getPreloadedVideo_def length_delete split: option.splits)

lemma len_cleanupOldPreloads:
  "length (preloadedVideos (cleanupOldPreloads cfg cur w)) \<le> length (preloadedVideos w)"
  by (simp add: cleanupOldPreloads_def cleanupLoop_cache)

lemma len_createSlideElement:
  "length (preloadedVideos (snd (createSlideElement d pos i w))) \<le> length (preloadedVideos w)"
proof (cases "getPreloadedVideo i w")
  case (Pair v w1)
  with len_getPreloadedVideo [of i w]
  have l: "length (preloadedVideos w1) \<le> length (preloadedVideos w)" by simp
  show ?thesis
    using l
    by (cases v) (simp_all add: createSlideElement_def Pair Let_def split: option.splits)
qed

lemma len_renderOffsets:
  "length (preloadedVideos (renderOffsets sl cur os w)) \<le> length (preloadedVideos w)"
proof (induction sl cur os w rule: renderOffsets.induct)
  case (1 sl current w)
  then show ?case by simp
next
  case (2 sl current offset pos rest w)
  let ?idx = "current + offset"
  show ?case
  proof (cases "?idx < 0 \<or> ?idx \<ge> int (length sl)")
    case True
    with "2.IH"(1) show ?thesis by (simp add: Let_def)
  next
    case False
    obtain el w1 where c: "createSlideElement (sl ! nat ?idx) pos ?idx w = (el, w1)"
      by (cases "createSlideElement (sl ! nat ?idx) pos ?idx w")
    from len_createSlideElement [of "sl ! nat ?idx" pos ?idx w] c
    have l: "length (preloadedVideos w1) \<le> length (preloadedVideos w)" by simp
    from "2.IH"(2) [OF refl False c [symmetric]]
    have "length (preloadedVideos (renderOffsets sl current rest
            (w1\<lparr> slideshow := map_option (\<lambda>es. es @ [el]) (slideshow w1) \<rparr>)))
          \<le> length (preloadedVideos w1)"
      by simp
    with l False c show ?thesis by (simp add: Let_def)
  qed
qed

lemma len_updateSlides:
  "length (preloadedVideos (updateSlides w)) \<le> length (preloadedVideos w)"
proof (cases "slideshow w")
  case None
  then show ?thesis by (simp add: updateSlides_def)
next
  case (Some es)
  from len_renderOffsets
    [of "slides w" "currentIndex w" "[(-1, ''prev''), (0, ''active''), (1, ''next'')]"
        "w\<lparr> slideshow := Some [] \<rparr>"]
  show ?thesis by (simp add: updateSlides_def Some)
qed

lemma cap_preloadVideosLoop:
  "withinCapacity cfg w \<Longrightarrow> withinCapacity cfg (preloadVideosLoop cfg sl is w)"
  by (induction cfg sl "is" w rule: preloadVideosLoop.induct)
     (auto simp: Let_def cap_preloadVideoElement split: option.splits)

lemma cap_preloadUpcomingVideos:
  "withinCapacity cfg w \<Longrightarrow> withinCapacity cfg (preloadUpcomingVideos cfg sl cur w)"
  by (simp add: preloadUpcomingVideos_def cap_preloadVideosLoop)

lemma len_navigate:
  "length (preloadedVideos (navigate cfg d w)) \<le> length (preloadedVideos w)"
proof (cases "currentIndex w + d < 0 \<or> currentIndex w + d \<ge> int (length (slides w))")
  case True
  then show ?thesis by (auto simp: navigate_def Let_def)
next
  case False
  define w3 where "w3 = (case getActiveVideo (stopBufferMonitoring (resetZoom w)) of
      None \<Rightarrow> stopBufferMonitoring (resetZoom w)
    | Some video \<Rightarrow> pause video (stopBufferMonitoring (resetZoom w)))"
  define w4 where "w4 = w3\<lparr> currentIndex := currentIndex w + d, preloadingPaused := False \<rparr>"
  define w5 where "w5 = updateSlides w4"
  define w6 where "w6 = (if s_type (objs w5 (slides w ! nat (currentIndex w + d))) = ''video''
                     then setTimeout StartBufferMonitoring w5 else w5)"
  define w8 where "w8 = cleanupOldPreloads cfg (currentIndex w + d) (preloadUpcomingMedia cfg w6)"
  have nav: "navigate cfg d w = (if shouldPreloadPosts cfg w8 then loadMorePosts w8 else w8)"
    using False by (simp add: navigate_def Let_def w3_def w4_def w5_def w6_def w8_def)
  have "preloadedVideos w3 = preloadedVideos w"
    by (simp add: w3_def split: option.splits)
  then have "preloadedVideos w4 = preloadedVideos w" by (simp add: w4_def)
  with len_updateSlides [of w4]
  have "length (preloadedVideos w5) \<le> length (preloadedVideos w)" by (simp add: w5_def)
  then have "length (preloadedVideos w6) \<le> length (preloadedVideos w)" by (simp add: w6_def)
  with len_cleanupOldPreloads [of cfg "currentIndex w + d" "preloadUpcomingMedia cfg w6"]
  have "length (preloadedVideos w8) \<le> length (preloadedVideos w)" by (simp add: w8_def)
  then show ?thesis by (simp add: nav)
qed

lemma len_subredditLoaded:
  "length (preloadedVideos (subredditLoaded res w)) \<le> length (preloadedVideos w)"
proof (cases "feedFetches w = 0")
  case True
  then show ?thesis by (simp add: subredditLoaded_def)
next
  case nz: False
  show ?thesis
  proof (cases res)
    case None
    with nz show ?thesis by (simp add: subredditLoaded_def Let_def)
  next
    case (Some a)
    obtain ns na where a: "a = (ns, na)" by (cases a)
    let ?w0 = "w\<lparr> feedFetches := feedFetches w - 1 \<rparr>"
    obtain refs w1 where al: "allocSlides ns ?w0 = (refs, w1)"
      by (cases "allocSlides ns ?w0")
    from cache_allocSlides [OF al] have e: "preloadedVideos w1 = preloadedVideos w" by simp
    let ?w2 = "w1\<lparr> slides := refs, after := na, loading := False \<rparr>"
    from len_updateSlides [of ?w2] e
    have l: "length (preloadedVideos (updateSlides ?w2)) \<le> length (preloadedVideos w)" by simp
    note al' = al [simplified]
    with l e nz show ?thesis by (simp add: subredditLoaded_def Let_def Some a al')
  qed
qed

lemma cap_timerFired:
  assumes c: "withinCapacity cfg w"
  shows "withinCapacity cfg (timerFired cfg n w)"
proof -
  let ?w = "w\<lparr> timers := take n (timers w) @ drop (Suc n) (timers w) \<rparr>"
  from c have c': "withinCapacity cfg ?w" by (simp add: withinCapacity_def)
  have "withinCapacity cfg (runTask cfg t ?w)" for t
  proof (cases t)
    case StartBufferMonitoring
    with c' show ?thesis by (simp add: runTask_def withinCapacity_def)
  next
    case (PreloadUpcomingVideos sl cur)
    with c' show ?thesis by (simp add: runTask_def cap_preloadUpcomingVideos)
  qed
  with c show ?thesis by (simp add: timerFired_def)
qed

lemma cap_step:
  assumes c: "withinCapacity cfg w"
  shows "withinCapacity cfg (step cfg enc e w)"
proof (cases e)
  case (Navigate d)
  with cap_shrink [OF len_navigate c] show ?thesis by (simp add: step_def)
next
  case (SubredditLoaded r)
  with cap_shrink [OF len_subredditLoaded c] show ?thesis by (simp add: step_def)
next
  case (TimerFired n)
  with c show ?thesis by (simp add: step_def cap_timerFired)
next
  case (VideoError r)
  with cap_shrink [OF len_videoError c] show ?thesis by (simp add: step_def)
next
  case (CallPreloadVideoElement d i u)
  with c show ?thesis by (simp add: step_def cap_preloadVideoElement)
next
  case (CallGetPreloadedVideo i)
  with cap_shrink [OF len_getPreloadedVideo c] show ?thesis by (simp add: step_def)
next
  case (CallCleanupOldPreloads cur)
  with cap_shrink [OF len_cleanupOldPreloads c] show ?thesis by (simp add: step_def)
qed (use c in \<open>simp_all add: step_def withinCapacity_def\<close>)

text \<open>
  Claim C1. Whatever the events (navigation, the calls of \<open>preloadVideoElement\<close>,
  \<open>getPreloadedVideo\<close> and \<open>cleanupOldPreloads\<close>, timers, network answers, element
  errors, feed loads), a preload element cache that holds at most
  \<open>MAX_CACHED_VIDEOS\<close> entries still does so afterwards; the empty cache of a fresh
  session does.
\<close>

theorem cache_never_exceeds_capacity:
  "withinCapacity cfg w \<Longrightarrow> withinCapacity cfg (run cfg enc evs w)"
  by (induction evs arbitrary: w) (simp_all add: cap_step)

theorem cache_never_exceeds_capacity_witness:
  "withinCapacity exampleConfig emptyWorld
   \<and> withinCapacity exampleConfig
       (run exampleConfig (\<lambda>s. s)
          [CallPreloadVideoElement 0 1 ''a'', CallPreloadVideoElement 0 2 ''b'',
           CallPreloadVideoElement 0 3 ''c'', CallPreloadVideoElement 0 4 ''d'']
          emptyWorld)
   \<and> map fst (preloadedVideos
       (run exampleConfig (\<lambda>s. s)
          [CallPreloadVideoElement 0 1 ''a'', CallPreloadVideoElement 0 2 ''b'',
           CallPreloadVideoElement 0 3 ''c'', CallPreloadVideoElement 0 4 ''d'']
          emptyWorld)) = [1, 2, 3]"
proof -
  have h: "withinCapacity exampleConfig emptyWorld"
    by (simp add: withinCapacity_def size_of_def emptyWorld_def)
  have e: "map fst (preloadedVideos
       (run exampleConfig (\<lambda>s. s)
          [CallPreloadVideoElement 0 1 ''a'', CallPreloadVideoElement 0 2 ''b'',
           CallPreloadVideoElement 0 3 ''c'', CallPreloadVideoElement 0 4 ''d'']
          emptyWorld)) = [1, 2, 3]"
    by (simp add: step_def preloadVideoElement_def has_def size_of_def Let_def
          playThenPause_def play_def setVideo_def emptyWorld_def exampleConfig_def)
  note t = cache_never_exceeds_capacity [OF h, where enc = "\<lambda>s. s" and evs =
          "[CallPreloadVideoElement 0 1 ''a'', CallPreloadVideoElement 0 2 ''b'',
            CallPreloadVideoElement 0 3 ''c'', CallPreloadVideoElement 0 4 ''d'']"]
  from h t e show ?thesis by (intro conjI)
qed

section \<open>Properties of the navigation\<close>

subsection \<open>Operations that leave the position and the slide sequence alone\<close>

lemma cursor_setVideo [simp]: "cursor (setVideo r f w) = cursor w"
  by (simp add: cursor_def setVideo_def)

lemma cursor_pause [simp]: "cursor (pause r w) = cursor w"
  by (simp add: pause_def)

lemma cursor_play [simp]: "cursor (play r w) = cursor w"
  by (simp add: play_def)

lemma cursor_removeEl [simp]: "cursor (removeEl r w) = cursor w"
  by (simp add: removeEl_def)

lemma cursor_fetchExternalVideoUrl [simp]: "cursor (fetchExternalVideoUrl i k w) = cursor w"
  by (simp add: cursor_def fetchExternalVideoUrl_def)

lemma cursor_getPreloadedVideo [simp]: "cursor (snd (getPreloadedVideo i w)) = cursor w"
  by (simp add: getPreloadedVideo_def split: option.splits) (simp add: cursor_def)

lemma cursor_upd [simp]:
  "cursor (w\<lparr> preloadingInProgress := a \<rparr>) = cursor w"
  "cursor (w\<lparr> preloadedImages := b \<rparr>) = cursor w"
  "cursor (w\<lparr> preloadedVideos := c \<rparr>) = cursor w"
  "cursor (w\<lparr> objs := d \<rparr>) = cursor w"
  "cursor (w\<lparr> slideshow := e \<rparr>) = cursor w"
  "cursor (w\<lparr> nextVideo := f \<rparr>) = cursor w"
  "cursor (w\<lparr> videos := g \<rparr>) = cursor w"
  "cursor (w\<lparr> timers := h \<rparr>) = cursor w"
  by (simp_all add: cursor_def)

lemma cursor_createSlideElement [simp]:
  "cursor (snd (createSlideElement d pos i w)) = cursor w"
proof (cases "getPreloadedVideo i w")
  case (Pair v w1)
  with cursor_getPreloadedVideo [of i w] have c: "cursor w1 = cursor w" by simp
  show ?thesis
    using c
    by (cases v) (simp_all add: createSlideElement_def Pair Let_def split: option.splits)
qed

lemma cursor_renderOffsets [simp]: "cursor (renderOffsets sl cur os w) = cursor w"
proof (induction sl cur os w rule: renderOffsets.induct)
  case (1 sl current w)
  then show ?case by simp
next
  case (2 sl current offset pos rest w)
  let ?idx = "current + offset"
  show ?case
  proof (cases "?idx < 0 \<or> ?idx \<ge> int (length sl)")
    case True
    with "2.IH"(1) show ?thesis by (simp add: Let_def)
  next
    case False
    obtain el w1 where c: "createSlideElement (sl ! nat ?idx) pos ?idx w = (el, w1)"
      by (cases "createSlideElement (sl ! nat ?idx) pos ?idx w")
    from cursor_createSlideElement [of "sl ! nat ?idx" pos ?idx w] c
    have l: "cursor w1 = cursor w" by simp
    from "2.IH"(2) [OF refl False c [symmetric]] l False c
    show ?thesis by (simp add: Let_def)
  qed
qed

lemma cursor_updateSlides [simp]: "cursor (updateSlides w) = cursor w"
  by (simp add: updateSlides_def del: renderOffsets.simps split: option.splits)

lemma cursor_preloadImagesLoop [simp]: "cursor (preloadImagesLoop sl is w) = cursor w"
  by (induction sl "is" w rule: preloadImagesLoop.induct)
     (auto simp: Let_def split: option.splits)

lemma cursor_preloadUrlsLoop [simp]: "cursor (preloadUrlsLoop sl is w) = cursor w"
  by (induction sl "is" w rule: preloadUrlsLoop.induct)
     (auto simp: Let_def split: option.splits)

lemma cursor_preloadUpcomingMedia [simp]: "cursor (preloadUpcomingMedia cfg w) = cursor w"
  by (simp add: preloadUpcomingMedia_def Let_def preloadExternalVideoUrls_def setTimeout_def)

lemma cursor_cleanupLoop [simp]: "cursor (cleanupLoop cfg cur es w) = cursor w"
  by (induction cfg cur es w rule: cleanupLoop.induct) simp_all

lemma cursor_cleanupOldPreloads [simp]: "cursor (cleanupOldPreloads cfg cur w) = cursor w"
  by (simp add: cleanupOldPreloads_def)

lemma navigate_noop:
  "currentIndex w + d < 0 \<or> currentIndex w + d \<ge> int (length (slides w)) \<Longrightarrow>
   navigate cfg d w = w"
  by (auto simp: navigate_def Let_def)

lemma navigate_moves:
  assumes "\<not> (currentIndex w + d < 0 \<or> currentIndex w + d \<ge> int (length (slides w)))"
  shows "cursor (navigate cfg d w) = (currentIndex w + d, slides w)"
proof -
  define w3 where "w3 = (case getActiveVideo (stopBufferMonitoring (resetZoom w)) of
      None \<Rightarrow> stopBufferMonitoring (resetZoom w)
    | Some video \<Rightarrow> pause video (stopBufferMonitoring (resetZoom w)))"
  define w4 where "w4 = w3\<lparr> currentIndex := currentIndex w + d, preloadingPaused := False \<rparr>"
  define w5 where "w5 = updateSlides w4"
  define w6 where "w6 = (if s_type (objs w5 (slides w ! nat (currentIndex w + d))) = ''video''
                     then setTimeout StartBufferMonitoring w5 else w5)"
  define w8 where "w8 = cleanupOldPreloads cfg (currentIndex w + d) (preloadUpcomingMedia cfg w6)"
  have nav: "navigate cfg d w = (if shouldPreloadPosts cfg w8 then loadMorePosts w8 else w8)"
    using assms by (simp add: navigate_def Let_def w3_def w4_def w5_def w6_def w8_def)
  have "slides w3 = slides w"
    by (simp add: w3_def stopBufferMonitoring_def resetZoom_def pause_def setVideo_def
          split: option.splits)
  then have "cursor w4 = (currentIndex w + d, slides w)" by (simp add: w4_def cursor_def)
  then have "cursor w5 = (currentIndex w + d, slides w)" by (simp add: w5_def)
  then have "cursor w6 = (currentIndex w + d, slides w)"
    by (simp add: w6_def setTimeout_def)
  then have "cursor w8 = (currentIndex w + d, slides w)" by (simp add: w8_def)
  then show ?thesis by (simp add: nav loadMorePosts_def cursor_def)
qed

lemma navigate_valid: "validIndex w \<Longrightarrow> validIndex (navigate cfg d w)"
proof (cases "currentIndex w + d < 0 \<or> currentIndex w + d \<ge> int (length (slides w))")
  case True
  assume "validIndex w"
  with navigate_noop [OF True] show ?thesis by simp
next
  case False
  from navigate_moves [OF False] False show ?thesis
    by (simp add: cursor_def validIndex_def)
qed

lemma navigations_valid:
  "validIndex w \<Longrightarrow> validIndex (run cfg enc (map Navigate ds) w)"
  by (induction ds arbitrary: w) (simp_all add: step_def navigate_valid)

lemma cursor_upd2 [simp]:
  "cursor (w\<lparr> plays := a \<rparr>) = cursor w"
  "cursor (w\<lparr> preloadingPaused := b \<rparr>) = cursor w"
  "cursor (w\<lparr> bufferMonitorInterval := c \<rparr>) = cursor w"
  "cursor (w\<lparr> attempts := d \<rparr>) = cursor w"
  "cursor (w\<lparr> requests := e \<rparr>) = cursor w"
  "cursor (w\<lparr> preloadedVideoUrls := f \<rparr>) = cursor w"
  "cursor (w\<lparr> externalVideoToken := g \<rparr>) = cursor w"
  "cursor (w\<lparr> externalVideoTokenExpiry := h \<rparr>) = cursor w"
  "cursor (w\<lparr> clock := i \<rparr>) = cursor w"
  by (simp_all add: cursor_def)

lemma cursor_playThenPause [simp]: "cursor (playThenPause r w) = cursor w"
  by (simp add: playThenPause_def)

lemma cursor_playSettled [simp]: "cursor (playSettled n b w) = cursor w"
  by (simp add: playSettled_def Let_def)

lemma cursor_pauseLoop [simp]: "cursor (pauseLoop es w) = cursor w"
  by (induction es w rule: pauseLoop.induct) simp_all

lemma cursor_pauseAllPreloads [simp]: "cursor (pauseAllPreloads w) = cursor w"
  by (simp add: pauseAllPreloads_def)

lemma cursor_resumePreloads [simp]: "cursor (resumePreloads w) = cursor w"
  by (simp add: resumePreloads_def Let_def split: option.splits)

lemma cursor_checkBuffer [simp]: "cursor (checkBuffer cfg w) = cursor w"
  by (simp add: checkBuffer_def Let_def split: option.splits)

lemma cursor_startBufferMonitoring [simp]: "cursor (startBufferMonitoring cfg w) = cursor w"
  by (simp add: startBufferMonitoring_def stopBufferMonitoring_def)

lemma cursor_runCallback [simp]: "cursor (runCallback k u w) = cursor w"
  by (simp add: runCallback_def Let_def split: callback.splits option.splits)

lemma cursor_authResponse [simp]: "cursor (authResponse n t w) = cursor w"
  by (simp add: authResponse_def dropAttempt_def Let_def)

lemma cursor_gifResponse [simp]: "cursor (gifResponse cfg enc n d w) = cursor w"
  by (simp add: gifResponse_def dropAttempt_def)

lemma cursor_preloadVideoElement [simp]: "cursor (preloadVideoElement cfg d i u w) = cursor w"
  by (simp add: preloadVideoElement_def Let_def)

lemma cursor_preloadVideosLoop [simp]: "cursor (preloadVideosLoop cfg sl is w) = cursor w"
  by (induction cfg sl "is" w rule: preloadVideosLoop.induct)
     (auto simp: Let_def split: option.splits)

lemma cursor_timerFired [simp]: "cursor (timerFired cfg n w) = cursor w"
proof -
  have "cursor (runTask cfg t w') = cursor w'" for t w'
    by (cases t) (simp_all add: runTask_def preloadUpcomingVideos_def)
  then show ?thesis by (simp add: timerFired_def)
qed

lemma cursor_videoError [simp]: "cursor (videoError r w) = cursor w"
  by (simp add: videoError_def split: option.splits)

lemma cursor_triggerInitialPreload [simp]: "cursor (triggerInitialPreload cfg w) = cursor w"
  by (simp add: triggerInitialPreload_def Let_def preloadExternalVideoUrls_def setTimeout_def
        split: option.splits)

lemma indexOk_cursor: "cursor w' = cursor w \<Longrightarrow> indexOk w \<Longrightarrow> indexOk w'"
  by (simp add: cursor_def indexOk_def validIndex_def)

lemma indexOk_navigate: "indexOk w \<Longrightarrow> indexOk (navigate cfg d w)"
proof (cases "currentIndex w + d < 0 \<or> currentIndex w + d \<ge> int (length (slides w))")
  case True
  assume "indexOk w"
  with navigate_noop [OF True] show ?thesis by simp
next
  case False
  from navigate_moves [OF False] False show ?thesis
    by (simp add: cursor_def validIndex_def indexOk_def)
qed

lemma indexOk_step:
  assumes "\<not> isFeedAnswer e" and i: "indexOk w"
  shows "indexOk (step cfg enc e w)"
proof (cases e)
  case (Navigate d)
  with i show ?thesis by (simp add: step_def indexOk_navigate)
next
  case (LoadSubreddit name)
  then show ?thesis by (simp add: step_def loadSubreddit_def Let_def indexOk_def)
next
  case (SubredditLoaded r)
  with assms(1) show ?thesis by (simp add: isFeedAnswer_def)
next
  case (MorePostsLoaded n r)
  with assms(1) show ?thesis by (simp add: isFeedAnswer_def)
next
  case (TimerFired n)
  with indexOk_cursor [OF cursor_timerFired i] show ?thesis by (simp add: step_def)
next
  case MonitorTick
  with indexOk_cursor [OF cursor_checkBuffer i] i show ?thesis by (simp add: step_def)
next
  case (AuthResponse n t)
  with indexOk_cursor [OF cursor_authResponse i] show ?thesis by (simp add: step_def)
next
  case (GifResponse n d)
  with indexOk_cursor [OF cursor_gifResponse i] show ?thesis by (simp add: step_def)
next
  case (PlaySettled n b)
  with indexOk_cursor [OF cursor_playSettled i] show ?thesis by (simp add: step_def)
next
  case (VideoError r)
  with indexOk_cursor [OF cursor_videoError i] show ?thesis by (simp add: step_def)
next
  case (Progress r rs t)
  with indexOk_cursor [OF cursor_setVideo i] show ?thesis by (simp add: step_def)
next
  case (ClockAdvance d)
  with indexOk_cursor [OF cursor_upd2(9) i] show ?thesis by (simp add: step_def)
next
  case (CallPreloadVideoElement d idx u)
  with indexOk_cursor [OF cursor_preloadVideoElement i] show ?thesis by (simp add: step_def)
next
  case (CallGetPreloadedVideo idx)
  with indexOk_cursor [OF cursor_getPreloadedVideo i] show ?thesis by (simp add: step_def)
next
  case (CallCleanupOldPreloads cur)
  with indexOk_cursor [OF cursor_cleanupOldPreloads i] show ?thesis by (simp add: step_def)
next
  case CallTriggerInitialPreload
  with indexOk_cursor [OF cursor_triggerInitialPreload i] show ?thesis by (simp add: step_def)
qed

lemma indexOk_run:
  "\<forall>e \<in> set evs. \<not> isFeedAnswer e \<Longrightarrow> indexOk w \<Longrightarrow> indexOk (run cfg enc evs w)"
  by (induction evs arbitrary: w) (simp_all add: indexOk_step)




section \<open>Properties of the resolution of external identifiers\<close>

lemma fetchExternalVideoUrl_props:
  "attempts (fetchExternalVideoUrl i k w) =
     attempts w @ [\<lparr> a_id = i,
        a_stage = (if truthy (externalVideoToken w) \<and> clock w < externalVideoTokenExpiry w
                   then AwaitGif else AwaitToken),
        a_then = k \<rparr>]"
  "length (requests (fetchExternalVideoUrl i k w)) = Suc (length (requests w))"
  "preloadingInProgress (fetchExternalVideoUrl i k w) = preloadingInProgress w"
  "preloadedVideoUrls (fetchExternalVideoUrl i k w) = preloadedVideoUrls w"
  by (simp_all add: fetchExternalVideoUrl_def)

lemma preloadUrlsLoop_starts:
  "\<exists>new. attempts (preloadUrlsLoop sl is w) = attempts w @ new
     \<and> distinct (map a_id new)
     \<and> (\<forall>a \<in> set new. a_id a \<notin> preloadingInProgress w
            \<and> \<not> has (preloadedVideoUrls w) (a_id a)
            \<and> a_then a = FromPreloader (a_id a))
     \<and> preloadingInProgress (preloadUrlsLoop sl is w) = preloadingInProgress w \<union> a_id ` set new
     \<and> preloadedVideoUrls (preloadUrlsLoop sl is w) = preloadedVideoUrls w
     \<and> length (requests (preloadUrlsLoop sl is w)) = length (requests w) + length new"
proof (induction sl "is" w rule: preloadUrlsLoop.induct)
  case (1 sl w)
  show ?case by simp
next
  case (2 sl idx rest w)
  show ?case
  proof (cases "idx \<ge> int (length sl)")
    case True
    then show ?thesis by simp
  next
    case inside: False
    show ?thesis
    proof (cases "slideAt sl idx")
      case None
      with inside show ?thesis by simp
    next
      case (Some data)
      let ?d = "objs w data"
      show ?thesis
      proof (cases "\<not> s_needsResolve ?d \<or> \<not> truthy (s_externalVideoId ?d)")
        case True
        from "2.IH"(1) [OF inside Some refl True] inside Some True
        show ?thesis by (simp add: Let_def)
      next
        case needs: False
        let ?v = "the (s_externalVideoId ?d)"
        show ?thesis
        proof (cases "has (preloadedVideoUrls w) ?v \<or> ?v \<in> preloadingInProgress w")
          case True
          from "2.IH"(2) [OF inside Some refl needs refl True] inside Some needs True
          show ?thesis by (simp add: Let_def)
        next
          case fresh: False
          let ?w1 = "fetchExternalVideoUrl ?v (FromPreloader ?v)
                       (w\<lparr> preloadingInProgress := insert ?v (preloadingInProgress w) \<rparr>)"
          let ?a = "\<lparr> a_id = ?v,
             a_stage = (if truthy (externalVideoToken w) \<and> clock w < externalVideoTokenExpiry w
                        then AwaitGif else AwaitToken),
             a_then = FromPreloader ?v \<rparr>"
          have step: "preloadUrlsLoop sl (idx # rest) w = preloadUrlsLoop sl rest ?w1"
            using inside Some needs fresh by (simp add: Let_def)
          from "2.IH"(3) [OF inside Some refl needs refl fresh]
          obtain new where n:
            "attempts (preloadUrlsLoop sl rest ?w1) = attempts ?w1 @ new"
            "distinct (map a_id new)"
            "\<forall>a \<in> set new. a_id a \<notin> preloadingInProgress ?w1
                \<and> \<not> has (preloadedVideoUrls ?w1) (a_id a)
                \<and> a_then a = FromPreloader (a_id a)"
            "preloadingInProgress (preloadUrlsLoop sl rest ?w1) =
               preloadingInProgress ?w1 \<union> a_id ` set new"
            "preloadedVideoUrls (preloadUrlsLoop sl rest ?w1) = preloadedVideoUrls ?w1"
            "length (requests (preloadUrlsLoop sl rest ?w1)) = length (requests ?w1) + length new"
            by blast
          have w1: "attempts ?w1 = attempts w @ [?a]"
                   "preloadingInProgress ?w1 = insert ?v (preloadingInProgress w)"
                   "preloadedVideoUrls ?w1 = preloadedVideoUrls w"
                   "length (requests ?w1) = Suc (length (requests w))"
            by (simp_all add: fetchExternalVideoUrl_props)
          have "attempts (preloadUrlsLoop sl (idx # rest) w) = attempts w @ (?a # new)"
            using n(1) w1(1) step by simp
          moreover have "distinct (map a_id (?a # new))"
            using n(2,3) w1(2) by auto
          moreover have "\<forall>a \<in> set (?a # new). a_id a \<notin> preloadingInProgress w
                \<and> \<not> has (preloadedVideoUrls w) (a_id a)
                \<and> a_then a = FromPreloader (a_id a)"
            using n(3) w1(2,3) fresh by auto
          moreover have "preloadingInProgress (preloadUrlsLoop sl (idx # rest) w) =
               preloadingInProgress w \<union> a_id ` set (?a # new)"
            using n(4) w1(2) step by auto
          moreover have "preloadedVideoUrls (preloadUrlsLoop sl (idx # rest) w) = preloadedVideoUrls w"
            using n(5) w1(3) step by simp
          moreover have "length (requests (preloadUrlsLoop sl (idx # rest) w)) =
               length (requests w) + length (?a # new)"
            using n(6) w1(4) step by simp
          ultimately show ?thesis by blast
        qed
      qed
    qed
  qed
qed

lemma preloadExternalVideoUrls_starts:
  fixes w sl s c
  defines "w' \<equiv> preloadExternalVideoUrls sl s c w"
  shows "attempts w' = attempts w @ started w w'"
    and "distinct (map a_id (started w w'))"
    and "\<forall>a \<in> set (started w w'). a_id a \<notin> preloadingInProgress w
            \<and> \<not> has (preloadedVideoUrls w) (a_id a)
            \<and> a_then a = FromPreloader (a_id a)"
    and "preloadingInProgress w' = preloadingInProgress w \<union> a_id ` set (started w w')"
    and "preloadedVideoUrls w' = preloadedVideoUrls w"
    and "length (requests w') = length (requests w) + length (started w w')"
proof -
  from preloadUrlsLoop_starts [of sl "map (\<lambda>i. s + int i) [0..<c]" w]
  obtain new where n:
    "attempts w' = attempts w @ new"
    "distinct (map a_id new)"
    "\<forall>a \<in> set new. a_id a \<notin> preloadingInProgress w
        \<and> \<not> has (preloadedVideoUrls w) (a_id a)
        \<and> a_then a = FromPreloader (a_id a)"
    "preloadingInProgress w' = preloadingInProgress w \<union> a_id ` set new"
    "preloadedVideoUrls w' = preloadedVideoUrls w"
    "length (requests w') = length (requests w) + length new"
    unfolding w'_def preloadExternalVideoUrls_def by blast
  from n(1) have s: "started w w' = new" by (simp add: started_def)
  from n s show "attempts w' = attempts w @ started w w'"
    and "distinct (map a_id (started w w'))"
    and "\<forall>a \<in> set (started w w'). a_id a \<notin> preloadingInProgress w
            \<and> \<not> has (preloadedVideoUrls w) (a_id a)
            \<and> a_then a = FromPreloader (a_id a)"
    and "preloadingInProgress w' = preloadingInProgress w \<union> a_id ` set (started w w')"
    and "preloadedVideoUrls w' = preloadedVideoUrls w"
    and "length (requests w') = length (requests w) + length (started w w')"
    by simp_all
qed

lemma getPreloadedVideo_frame:
  assumes "getPreloadedVideo i w = (v, w1)"
  shows "requests w1 = requests w" and "attempts w1 = attempts w" and "objs w1 = objs w"
    and "preloadedVideoUrls w1 = preloadedVideoUrls w"
    and "preloadingInProgress w1 = preloadingInProgress w"
    and "externalVideoToken w1 = externalVideoToken w"
    and "externalVideoTokenExpiry w1 = externalVideoTokenExpiry w"
    and "clock w1 = clock w"
    and "nextVideo w1 = nextVideo w"
    and "v = map_option element (map_of (preloadedVideos w) i)"
  using assms
  by (auto simp: getPreloadedVideo_def setVideo_def split: option.splits)

lemma createSlideElement_cached:
  assumes "s_externalVideoId (objs w data) = Some vid"
      and "map_of (preloadedVideoUrls w) vid = Some u" and "u \<noteq> []"
  shows "requests (snd (createSlideElement data pos i w)) = requests w"
    and "attempts (snd (createSlideElement data pos i w)) = attempts w"
proof -
  obtain v w1 where g: "getPreloadedVideo i w = (v, w1)"
    by (cases "getPreloadedVideo i w")
  note f = getPreloadedVideo_frame [OF g]
  have c: "getPreloadedVideoUrl vid (w1\<lparr> nextVideo := n, videos := vs \<rparr>) = Some u" for n vs
    using assms f(4) by (simp add: getPreloadedVideoUrl_def orElse_def truthy_def)
  show "requests (snd (createSlideElement data pos i w)) = requests w"
    using assms(1) f(1,3) c
    by (cases v)
       (simp_all add: createSlideElement_def g Let_def play_def setVideo_def)
  show "attempts (snd (createSlideElement data pos i w)) = attempts w"
    using assms(1) f(2,3) c
    by (cases v)
       (simp_all add: createSlideElement_def g Let_def play_def setVideo_def)
qed

lemma createSlideElement_takes_cached:
  assumes "s_type (objs w data) = ''video''"
      and "map_of (preloadedVideos w) i = None"
      and "s_needsResolve (objs w data)"
      and "s_externalVideoId (objs w data) = Some vid" and "vid \<noteq> []"
      and "map_of (preloadedVideoUrls w) vid = Some u" and "u \<noteq> []"
  shows "fst (createSlideElement data pos i w) = \<lparr> position = pos, media = Some (nextVideo w) \<rparr>"
    and "v_src (videos (snd (createSlideElement data pos i w)) (nextVideo w)) = u"
    and "s_url (objs (snd (createSlideElement data pos i w)) data) = Some u"
    and "\<not> s_needsResolve (objs (snd (createSlideElement data pos i w)) data)"
    and "preloadingInProgress (snd (createSlideElement data pos i w)) = preloadingInProgress w"
proof -
  have g: "getPreloadedVideo i w = (None, w)"
    using assms(2) by (simp add: getPreloadedVideo_def)
  have c: "getPreloadedVideoUrl vid (w\<lparr> nextVideo := n, videos := vs \<rparr>) = Some u" for n vs
    using assms(6,7) by (simp add: getPreloadedVideoUrl_def orElse_def truthy_def)
  show "fst (createSlideElement data pos i w) = \<lparr> position = pos, media = Some (nextVideo w) \<rparr>"
    using assms(1,3,4,5) c
    by (simp add: createSlideElement_def g Let_def truthy_def play_def setVideo_def)
  show "v_src (videos (snd (createSlideElement data pos i w)) (nextVideo w)) = u"
    using assms(1,3,4,5) c
    by (simp add: createSlideElement_def g Let_def truthy_def play_def setVideo_def)
  show "s_url (objs (snd (createSlideElement data pos i w)) data) = Some u"
    using assms(1,3,4,5) c
    by (simp add: createSlideElement_def g Let_def truthy_def play_def setVideo_def)
  show "\<not> s_needsResolve (objs (snd (createSlideElement data pos i w)) data)"
    using assms(1,3,4,5) c
    by (simp add: createSlideElement_def g Let_def truthy_def play_def setVideo_def)
  show "preloadingInProgress (snd (createSlideElement data pos i w)) = preloadingInProgress w"
    using assms(1,3,4,5) c
    by (simp add: createSlideElement_def g Let_def truthy_def play_def setVideo_def)
qed

lemma createSlideElement_resolves:
  assumes "s_type (objs w data) = ''video''"
      and "map_of (preloadedVideos w) i = None"
      and "s_needsResolve (objs w data)"
      and "s_externalVideoId (objs w data) = Some vid" and "vid \<noteq> []"
      and "getPreloadedVideoUrl vid w = None"
  shows "attempts (snd (createSlideElement data pos i w)) =
           attempts w @ [\<lparr> a_id = vid,
             a_stage = (if truthy (externalVideoToken w) \<and> clock w < externalVideoTokenExpiry w
                        then AwaitGif else AwaitToken),
             a_then = FromRenderer (nextVideo w) data pos \<rparr>]"
    and "vid \<in> preloadingInProgress (snd (createSlideElement data pos i w))"
    and "length (requests (snd (createSlideElement data pos i w))) = Suc (length (requests w))"
proof -
  have g: "getPreloadedVideo i w = (None, w)"
    using assms(2) by (simp add: getPreloadedVideo_def)
  have c: "getPreloadedVideoUrl vid (w\<lparr> nextVideo := n, videos := vs \<rparr>) = None" for n vs
    using assms(6) by (simp add: getPreloadedVideoUrl_def)
  show "attempts (snd (createSlideElement data pos i w)) =
           attempts w @ [\<lparr> a_id = vid,
             a_stage = (if truthy (externalVideoToken w) \<and> clock w < externalVideoTokenExpiry w
                        then AwaitGif else AwaitToken),
             a_then = FromRenderer (nextVideo w) data pos \<rparr>]"
    using assms(1,3,4,5) c
    by (simp add: createSlideElement_def g Let_def truthy_def play_def setVideo_def
          fetchExternalVideoUrl_def)
  show "vid \<in> preloadingInProgress (snd (createSlideElement data pos i w))"
    using assms(1,3,4,5) c
    by (simp add: createSlideElement_def g Let_def truthy_def play_def setVideo_def
          fetchExternalVideoUrl_def)
  show "length (requests (snd (createSlideElement data pos i w))) = Suc (length (requests w))"
    using assms(1,3,4,5) c
    by (simp add: createSlideElement_def g Let_def truthy_def play_def setVideo_def
          fetchExternalVideoUrl_def)
qed

text \<open>
  Claim C5, as stated, fails: the renderer does not consult the in-flight set. In the
  feed of \<open>feedWorld\<close> the first navigation lets the orchestrator start the resolution
  of \<open>abc\<close> for position 3 and puts \<open>abc\<close> in the in-flight set; the second
  navigation renders position 3 as the next slide before any answer has arrived, and
  the renderer starts a second resolution of \<open>abc\<close>.
\<close>

theorem duplicate_resolution_counterexample:
  "''abc'' \<in> preloadingInProgress (run exampleConfig id [Navigate 1] feedWorld)
   \<and> map a_then (attempts (run exampleConfig id [Navigate 1] feedWorld))
       = [FromPreloader ''abc'']
   \<and> map a_id (attempts (run exampleConfig id [Navigate 1, Navigate 1] feedWorld))
       = [''abc'', ''abc'']
   \<and> map a_then (attempts (run exampleConfig id [Navigate 1, Navigate 1] feedWorld))
       = [FromPreloader ''abc'', FromRenderer 0 3 ''next'']
   \<and> requests (run exampleConfig id [Navigate 1, Navigate 1] feedWorld)
       = [AuthRequest, AuthRequest]
   \<and> \<not> noDuplicateResolutions (run exampleConfig id [Navigate 1, Navigate 1] feedWorld)"
  by code_simp

text \<open>
  Claim C5, amended. The orchestrator path \<open>preloadExternalVideoUrls\<close> starts at most
  one resolution per identifier, none for an identifier that is in the in-flight set or
  in the URL cache, and every identifier it starts a resolution for is in the in-flight
  set afterwards. The renderer path \<open>createSlideElement\<close>, for a video slide without a
  preloaded element whose identifier has no cached URL, puts the identifier in the set
  and starts one resolution, whether or not the identifier was in the set.
\<close>

theorem orchestrator_respects_in_flight:
  "attempts (preloadExternalVideoUrls sl s c w) =
     attempts w @ started w (preloadExternalVideoUrls sl s c w)
   \<and> distinct (map a_id (started w (preloadExternalVideoUrls sl s c w)))
   \<and> (\<forall>a \<in> set (started w (preloadExternalVideoUrls sl s c w)).
         a_id a \<notin> preloadingInProgress w
         \<and> \<not> has (preloadedVideoUrls w) (a_id a)
         \<and> a_id a \<in> preloadingInProgress (preloadExternalVideoUrls sl s c w))
   \<and> (s_type (objs w data) = ''video'' \<and> map_of (preloadedVideos w) i = None
        \<and> s_needsResolve (objs w data) \<and> s_externalVideoId (objs w data) = Some vid
        \<and> vid \<noteq> [] \<and> getPreloadedVideoUrl vid w = None
      \<longrightarrow> map a_id (started w (snd (createSlideElement data pos i w))) = [vid]
          \<and> vid \<in> preloadingInProgress (snd (createSlideElement data pos i w)))"
proof (intro conjI impI ballI)
  fix a
  assume a: "a \<in> set (started w (preloadExternalVideoUrls sl s c w))"
  with preloadExternalVideoUrls_starts(3) [of w sl s c]
  show "a_id a \<notin> preloadingInProgress w" and "\<not> has (preloadedVideoUrls w) (a_id a)"
    by blast+
  from a preloadExternalVideoUrls_starts(4) [of sl s c w]
  show "a_id a \<in> preloadingInProgress (preloadExternalVideoUrls sl s c w)"
    by blast
next
  assume r: "s_type (objs w data) = ''video'' \<and> map_of (preloadedVideos w) i = None
        \<and> s_needsResolve (objs w data) \<and> s_externalVideoId (objs w data) = Some vid
        \<and> vid \<noteq> [] \<and> getPreloadedVideoUrl vid w = None"
  then have p: "s_type (objs w data) = ''video''" "map_of (preloadedVideos w) i = None"
      "s_needsResolve (objs w data)" "s_externalVideoId (objs w data) = Some vid"
      "vid \<noteq> []" "getPreloadedVideoUrl vid w = None"
    by simp_all
  from createSlideElement_resolves(1) [OF p]
  show "map a_id (started w (snd (createSlideElement data pos i w))) = [vid]"
    by (simp add: started_def)
  from createSlideElement_resolves(2) [OF p]
  show "vid \<in> preloadingInProgress (snd (createSlideElement data pos i w))" .
qed (simp_all add: preloadExternalVideoUrls_starts)

theorem orchestrator_respects_in_flight_witness:
  "map a_id (started feedWorld (preloadExternalVideoUrls [0, 1, 2, 3] 1 5 feedWorld)) = [''abc'']
   \<and> ''abc'' \<notin> preloadingInProgress feedWorld
   \<and> ''abc'' \<in> preloadingInProgress (preloadExternalVideoUrls [0, 1, 2, 3] 1 5 feedWorld)
   \<and> s_type (objs feedWorld 3) = ''video'' \<and> map_of (preloadedVideos feedWorld) 3 = None
   \<and> s_needsResolve (objs feedWorld 3) \<and> s_externalVideoId (objs feedWorld 3) = Some ''abc''
   \<and> getPreloadedVideoUrl ''abc'' feedWorld = None
   \<and> map a_id (started feedWorld (snd (createSlideElement 3 ''next'' 3 feedWorld))) = [''abc'']"
proof -
  note t = orchestrator_respects_in_flight
    [where w = feedWorld and sl = "[0, 1, 2, 3]" and s = 1 and c = 5 and data = 3 and i = 3
       and vid = "''abc''" and pos = "''next''"]
  have st: "map a_id (started feedWorld (preloadExternalVideoUrls [0, 1, 2, 3] 1 5 feedWorld))
      = [''abc'']"
    by code_simp
  then obtain a where a: "a \<in> set (started feedWorld (preloadExternalVideoUrls [0, 1, 2, 3] 1 5 feedWorld))"
      "a_id a = ''abc''"
    by (cases "started feedWorld (preloadExternalVideoUrls [0, 1, 2, 3] 1 5 feedWorld)") auto
  from t have b: "\<forall>a \<in> set (started feedWorld (preloadExternalVideoUrls [0, 1, 2, 3] 1 5 feedWorld)).
         a_id a \<notin> preloadingInProgress feedWorld
         \<and> \<not> has (preloadedVideoUrls feedWorld) (a_id a)
         \<and> a_id a \<in> preloadingInProgress (preloadExternalVideoUrls [0, 1, 2, 3] 1 5 feedWorld)"
    by (elim conjE)
  from bspec [OF b a(1)] a(2) have m: "''abc'' \<notin> preloadingInProgress feedWorld"
      "''abc'' \<in> preloadingInProgress (preloadExternalVideoUrls [0, 1, 2, 3] 1 5 feedWorld)"
    by simp_all
  have p: "s_type (objs feedWorld 3) = ''video''" "map_of (preloadedVideos feedWorld) 3 = None"
      "s_needsResolve (objs feedWorld 3)" "s_externalVideoId (objs feedWorld 3) = Some ''abc''"
      "''abc'' \<noteq> []" "getPreloadedVideoUrl ''abc'' feedWorld = None"
    by (simp_all add: feedWorld_def emptyWorld_def externalSlide_def getPreloadedVideoUrl_def
          orElse_def truthy_def)
  from t have i: "s_type (objs feedWorld 3) = ''video'' \<and> map_of (preloadedVideos feedWorld) 3 = None
        \<and> s_needsResolve (objs feedWorld 3) \<and> s_externalVideoId (objs feedWorld 3) = Some ''abc''
        \<and> ''abc'' \<noteq> [] \<and> getPreloadedVideoUrl ''abc'' feedWorld = None
      \<longrightarrow> map a_id (started feedWorld (snd (createSlideElement 3 ''next'' 3 feedWorld))) = [''abc'']
          \<and> ''abc'' \<in> preloadingInProgress (snd (createSlideElement 3 ''next'' 3 feedWorld))"
    by (elim conjE)
  from mp [OF i] p
  have r: "map a_id (started feedWorld (snd (createSlideElement 3 ''next'' 3 feedWorld)))
      = [''abc'']"
    by simp
  from st m p r show ?thesis by (intro conjI)
qed

text \<open>
  Claim C6, as stated, fails: \<open>fetchExternalVideoUrl\<close> does not look at the URL cache.
  In \<open>warmWorld\<close> the identifier \<open>abc\<close> is resolved, and a call of
  \<open>fetchExternalVideoUrl\<close> for it still sends a request.
\<close>

theorem fetch_ignores_cache_counterexample:
  "getPreloadedVideoUrl ''abc'' warmWorld = Some ''https://v.example/abc.mp4''
   \<and> requests warmWorld = []
   \<and> requests (fetchExternalVideoUrl ''abc'' (FromPreloader ''abc'') warmWorld) = [AuthRequest]
   \<and> map a_id (attempts (fetchExternalVideoUrl ''abc'' (FromPreloader ''abc'') warmWorld))
       = [''abc'']"
  by (simp add: warmWorld_def feedWorld_def emptyWorld_def getPreloadedVideoUrl_def orElse_def
        truthy_def fetchExternalVideoUrl_def)

text \<open>
  Claim C6, amended. For an identifier with a (non-empty) URL in the resolution cache,
  the lookup \<open>getPreloadedVideoUrl\<close> returns that URL, and the two callers of the
  resolver send nothing for it. \<open>preloadExternalVideoUrls\<close> starts no resolution for
  the identifier (and sends exactly one request per resolution it starts).
  \<open>createSlideElement\<close> for a slide with that identifier leaves the requests and the
  resolutions in flight as they are; where it creates the element for a video slide
  that needs resolving, it takes the cached URL: the new element has the URL as its
  source, the slide object receives the URL and no longer needs resolving, and the
  in-flight set is as before.
\<close>

theorem resolved_id_served_from_cache:
  "(map_of (preloadedVideoUrls w) vid = Some u \<and> u \<noteq> [] \<longrightarrow>
      getPreloadedVideoUrl vid w = Some u
      \<and> vid \<notin> a_id ` set (started w (preloadExternalVideoUrls sl s c w))
      \<and> (s_externalVideoId (objs w data) = Some vid \<longrightarrow>
            requests (snd (createSlideElement data pos i w)) = requests w
            \<and> attempts (snd (createSlideElement data pos i w)) = attempts w)
      \<and> (s_externalVideoId (objs w data) = Some vid \<and> vid \<noteq> []
           \<and> s_type (objs w data) = ''video'' \<and> s_needsResolve (objs w data)
           \<and> map_of (preloadedVideos w) i = None \<longrightarrow>
            fst (createSlideElement data pos i w) = \<lparr> position = pos, media = Some (nextVideo w) \<rparr>
            \<and> v_src (videos (snd (createSlideElement data pos i w)) (nextVideo w)) = u
            \<and> s_url (objs (snd (createSlideElement data pos i w)) data) = Some u
            \<and> \<not> s_needsResolve (objs (snd (createSlideElement data pos i w)) data)
            \<and> preloadingInProgress (snd (createSlideElement data pos i w)) =
                preloadingInProgress w))
   \<and> length (requests (preloadExternalVideoUrls sl s c w)) =
       length (requests w) + length (started w (preloadExternalVideoUrls sl s c w))"
proof (intro conjI impI)
  assume c: "map_of (preloadedVideoUrls w) vid = Some u \<and> u \<noteq> []"
  then show "getPreloadedVideoUrl vid w = Some u"
    by (simp add: getPreloadedVideoUrl_def orElse_def truthy_def)
  from c have "has (preloadedVideoUrls w) vid" by (simp add: has_def)
  with preloadExternalVideoUrls_starts(3) [of w sl s c]
  show "vid \<notin> a_id ` set (started w (preloadExternalVideoUrls sl s c w))"
    by blast
  from c have c1: "map_of (preloadedVideoUrls w) vid = Some u" and c2: "u \<noteq> []" by simp_all
  {
    assume d: "s_externalVideoId (objs w data) = Some vid"
    from createSlideElement_cached [OF d c1 c2]
    show "requests (snd (createSlideElement data pos i w)) = requests w"
      and "attempts (snd (createSlideElement data pos i w)) = attempts w"
      by simp_all
  }
  assume r: "s_externalVideoId (objs w data) = Some vid \<and> vid \<noteq> []
           \<and> s_type (objs w data) = ''video'' \<and> s_needsResolve (objs w data)
           \<and> map_of (preloadedVideos w) i = None"
  then have p: "s_type (objs w data) = ''video''" "map_of (preloadedVideos w) i = None"
      "s_needsResolve (objs w data)" "s_externalVideoId (objs w data) = Some vid" "vid \<noteq> []"
    by simp_all
  from createSlideElement_takes_cached [OF p c1 c2]
  show "fst (createSlideElement data pos i w) = \<lparr> position = pos, media = Some (nextVideo w) \<rparr>"
    and "v_src (videos (snd (createSlideElement data pos i w)) (nextVideo w)) = u"
    and "s_url (objs (snd (createSlideElement data pos i w)) data) = Some u"
    and "\<not> s_needsResolve (objs (snd (createSlideElement data pos i w)) data)"
    and "preloadingInProgress (snd (createSlideElement data pos i w)) = preloadingInProgress w"
    by simp_all
qed (rule preloadExternalVideoUrls_starts(6))

theorem resolved_id_served_from_cache_witness:
  "map_of (preloadedVideoUrls resolvedWorld) ''abc'' = Some ''https://v.example/abc.mp4''
   \<and> s_externalVideoId (objs resolvedWorld 3) = Some ''abc''
   \<and> s_type (objs resolvedWorld 3) = ''video'' \<and> s_needsResolve (objs resolvedWorld 3)
   \<and> map_of (preloadedVideos resolvedWorld) 3 = None
   \<and> getPreloadedVideoUrl ''abc'' resolvedWorld = Some ''https://v.example/abc.mp4''
   \<and> requests (snd (createSlideElement 3 ''active'' 3 resolvedWorld)) = []
   \<and> attempts (snd (createSlideElement 3 ''active'' 3 resolvedWorld)) = []
   \<and> fst (createSlideElement 3 ''active'' 3 resolvedWorld)
       = \<lparr> position = ''active'', media = Some 0 \<rparr>
   \<and> v_src (videos (snd (createSlideElement 3 ''active'' 3 resolvedWorld)) 0)
       = ''https://v.example/abc.mp4''
   \<and> s_url (objs (snd (createSlideElement 3 ''active'' 3 resolvedWorld)) 3)
       = Some ''https://v.example/abc.mp4''
   \<and> \<not> s_needsResolve (objs (snd (createSlideElement 3 ''active'' 3 resolvedWorld)) 3)
   \<and> ''abc'' \<notin> a_id ` set (started resolvedWorld
         (preloadExternalVideoUrls [0, 1, 2, 3] 1 5 resolvedWorld))"
proof -
  note t = resolved_id_served_from_cache
    [where w = resolvedWorld and vid = "''abc''" and u = "''https://v.example/abc.mp4''"
       and sl = "[0, 1, 2, 3]" and s = 1 and c = 5 and data = 3 and pos = "''active''" and i = 3]
  have h: "map_of (preloadedVideoUrls resolvedWorld) ''abc'' = Some ''https://v.example/abc.mp4''"
      "''https://v.example/abc.mp4'' \<noteq> []"
      "s_externalVideoId (objs resolvedWorld 3) = Some ''abc''" "''abc'' \<noteq> []"
      "s_type (objs resolvedWorld 3) = ''video''" "s_needsResolve (objs resolvedWorld 3)"
      "map_of (preloadedVideos resolvedWorld) 3 = None"
      "requests resolvedWorld = []" "attempts resolvedWorld = []" "nextVideo resolvedWorld = 0"
    by (simp_all add: resolvedWorld_def feedWorld_def emptyWorld_def externalSlide_def)
  from t h show ?thesis by simp
qed

section \<open>Properties of the session reset\<close>

text \<open>
  What loading a feed resets: five keys of the store and the image preload set. The
  same holds of \<open>stateHelpers.resetForNewLoad\<close>, without the subject.
\<close>

lemma loadSubreddit_resets:
  "slides (loadSubreddit name w) = []
   \<and> currentIndex (loadSubreddit name w) = 0
   \<and> after (loadSubreddit name w) = None
   \<and> loading (loadSubreddit name w)
   \<and> subreddit (loadSubreddit name w) = name
   \<and> preloadedImages (loadSubreddit name w) = {}
   \<and> slides (resetForNewLoad w) = []
   \<and> currentIndex (resetForNewLoad w) = 0
   \<and> after (resetForNewLoad w) = None
   \<and> loading (resetForNewLoad w)
   \<and> preloadedImages (resetForNewLoad w) = {}"
  by (simp add: loadSubreddit_def resetForNewLoad_def resetZoom_def Let_def)

text \<open>
  Claim C7. The session reset of a feed load is to clear the three caches, destroying
  the handles of the preload element cache, and to clear the pause flag. The code
  clears the image preload set only. From \<open>warmWorld\<close>, loading the feed \<open>cats\<close>
  leaves the resolved URL and the preloaded element of the previous feed cached, the
  element with its source and in the document, and preloading paused. When the new
  feed, whose slide at position 3 is a video of its own, has arrived and the user has
  moved two slides on, the renderer takes the element preloaded for position 3 of the
  previous feed and shows it as the next slide: the element plays the old video, the
  slide is the new one.
\<close>

theorem load_serves_stale_handle:
  "map fst (preloadedVideoUrls (loadSubreddit ''cats'' warmWorld)) = [''abc'']
   \<and> map fst (preloadedVideos (loadSubreddit ''cats'' warmWorld)) = [3]
   \<and> v_src (videos (loadSubreddit ''cats'' warmWorld) 0) = ''https://v.example/abc.mp4''
   \<and> v_parent (videos (loadSubreddit ''cats'' warmWorld) 0) = InBody
   \<and> preloadingPaused (loadSubreddit ''cats'' warmWorld)
   \<and> preloadedImages (loadSubreddit ''cats'' warmWorld) = {}
   \<and> map fst (preloadedVideos (run exampleConfig id
        [LoadSubreddit ''cats'',
         SubredditLoaded (Some ([imageSlide, imageSlide, imageSlide, nativeVideoSlide], None))]
        warmWorld)) = [3]
   \<and> preloadingPaused (run exampleConfig id
        [LoadSubreddit ''cats'',
         SubredditLoaded (Some ([imageSlide, imageSlide, imageSlide, nativeVideoSlide], None))]
        warmWorld)
   \<and> map position (the (slideshow (run exampleConfig id
        [LoadSubreddit ''cats'',
         SubredditLoaded (Some ([imageSlide, imageSlide, imageSlide, nativeVideoSlide], None)),
         Navigate 1, Navigate 1] warmWorld))) = [''prev'', ''active'', ''next'']
   \<and> map media (the (slideshow (run exampleConfig id
        [LoadSubreddit ''cats'',
         SubredditLoaded (Some ([imageSlide, imageSlide, imageSlide, nativeVideoSlide], None)),
         Navigate 1, Navigate 1] warmWorld))) = [None, None, Some 0]
   \<and> v_src (videos (run exampleConfig id
        [LoadSubreddit ''cats'',
         SubredditLoaded (Some ([imageSlide, imageSlide, imageSlide, nativeVideoSlide], None)),
         Navigate 1, Navigate 1] warmWorld) 0) = ''https://v.example/abc.mp4''
   \<and> s_url (objs (run exampleConfig id
        [LoadSubreddit ''cats'',
         SubredditLoaded (Some ([imageSlide, imageSlide, imageSlide, nativeVideoSlide], None)),
         Navigate 1, Navigate 1] warmWorld)
        (slides (run exampleConfig id
        [LoadSubreddit ''cats'',
         SubredditLoaded (Some ([imageSlide, imageSlide, imageSlide, nativeVideoSlide], None)),
         Navigate 1, Navigate 1] warmWorld) ! 3)) = Some ''https://v.example/new.mp4''"
  by code_simp

section \<open>Ownership of the preloaded elements\<close>

text \<open>
  Every entry of the preload element cache owns an element of its own: the elements of
  the entries are pairwise different and were all created before, in every world that
  the events reach from one where this holds (the empty cache, for one). This is the
  condition under which \<open>cleanupOldPreloads\<close> leaves the elements of the entries it
  keeps as they are.
\<close>

subsection \<open>Operations that create no element\<close>

lemma fresh_setVideo [simp]: "nextVideo (setVideo r f w) = nextVideo w"
  by (simp add: setVideo_def)

lemma fresh_pause [simp]: "nextVideo (pause r w) = nextVideo w"
  by (simp add: pause_def)

lemma fresh_play [simp]: "nextVideo (play r w) = nextVideo w"
  by (simp add: play_def)

lemma fresh_playThenPause [simp]: "nextVideo (playThenPause r w) = nextVideo w"
  by (simp add: playThenPause_def)

lemma fresh_playSettled [simp]: "nextVideo (playSettled n b w) = nextVideo w"
  by (simp add: playSettled_def Let_def)

lemma fresh_removeEl [simp]: "nextVideo (removeEl r w) = nextVideo w"
  by (simp add: removeEl_def)

lemma fresh_pauseLoop [simp]: "nextVideo (pauseLoop es w) = nextVideo w"
  by (induction es w rule: pauseLoop.induct) simp_all

lemma fresh_pauseAllPreloads [simp]: "nextVideo (pauseAllPreloads w) = nextVideo w"
  by (simp add: pauseAllPreloads_def)

lemma fresh_resumePreloads [simp]: "nextVideo (resumePreloads w) = nextVideo w"
  by (simp add: resumePreloads_def Let_def split: option.splits)

lemma fresh_stopBufferMonitoring [simp]:
  "nextVideo (stopBufferMonitoring w) = nextVideo w"
  by (simp add: stopBufferMonitoring_def)

lemma fresh_checkBuffer [simp]: "nextVideo (checkBuffer cfg w) = nextVideo w"
  by (simp add: checkBuffer_def Let_def split: option.splits)

lemma fresh_startBufferMonitoring [simp]:
  "nextVideo (startBufferMonitoring cfg w) = nextVideo w"
  by (simp add: startBufferMonitoring_def)

lemma fresh_fetchExternalVideoUrl [simp]:
  "nextVideo (fetchExternalVideoUrl i k w) = nextVideo w"
  by (simp add: fetchExternalVideoUrl_def)

lemma fresh_runCallback [simp]: "nextVideo (runCallback k u w) = nextVideo w"
  by (simp add: runCallback_def Let_def split: callback.splits option.splits)

lemma fresh_dropAttempt [simp]: "nextVideo (dropAttempt n w) = nextVideo w"
  by (simp add: dropAttempt_def)

lemma fresh_authResponse [simp]: "nextVideo (authResponse n t w) = nextVideo w"
  by (simp add: authResponse_def Let_def)

lemma fresh_gifResponse [simp]: "nextVideo (gifResponse cfg enc n d w) = nextVideo w"
  by (simp add: gifResponse_def)

lemma fresh_preloadUrlsLoop [simp]: "nextVideo (preloadUrlsLoop sl is w) = nextVideo w"
  by (induction sl "is" w rule: preloadUrlsLoop.induct)
     (auto simp: Let_def split: option.splits)

lemma fresh_preloadExternalVideoUrls [simp]:
  "nextVideo (preloadExternalVideoUrls sl s c w) = nextVideo w"
  by (simp add: preloadExternalVideoUrls_def)

lemma fresh_resetZoom [simp]: "nextVideo (resetZoom w) = nextVideo w"
  by (simp add: resetZoom_def)

lemma fresh_preloadImagesLoop [simp]:
  "nextVideo (preloadImagesLoop sl is w) = nextVideo w"
  by (induction sl "is" w rule: preloadImagesLoop.induct)
     (auto simp: Let_def split: option.splits)

lemma fresh_setTimeout [simp]: "nextVideo (setTimeout t w) = nextVideo w"
  by (simp add: setTimeout_def)

lemma fresh_preloadUpcomingMedia [simp]:
  "nextVideo (preloadUpcomingMedia cfg w) = nextVideo w"
  by (simp add: preloadUpcomingMedia_def Let_def)

lemma fresh_triggerInitialPreload [simp]:
  "nextVideo (triggerInitialPreload cfg w) = nextVideo w"
  by (simp add: triggerInitialPreload_def Let_def split: option.splits)

lemma fresh_loadMorePosts [simp]: "nextVideo (loadMorePosts w) = nextVideo w"
  by (simp add: loadMorePosts_def)

lemma fresh_loadSubreddit [simp]: "nextVideo (loadSubreddit name w) = nextVideo w"
  by (simp add: loadSubreddit_def Let_def)

lemma fresh_allocSlides:
  "allocSlides ds w = (rs, w1) \<Longrightarrow> nextVideo w1 = nextVideo w"
proof (induction ds arbitrary: w rs w1)
  case Nil
  then show ?case by simp
next
  case (Cons d ds)
  let ?w = "w\<lparr> nextObj := Suc (nextObj w), objs := (objs w)(nextObj w := d) \<rparr>"
  obtain rs' w' where al: "allocSlides ds ?w = (rs', w')"
    by (cases "allocSlides ds ?w")
  from Cons.IH [OF al] have "nextVideo w' = nextVideo w" by simp
  moreover from Cons.prems al have "w1 = w'" by simp
  ultimately show ?case by simp
qed

lemma fresh_morePostsLoaded [simp]:
  "nextVideo (morePostsLoaded n res w) = nextVideo w"
proof (cases res)
  case None
  then show ?thesis by (simp add: morePostsLoaded_def Let_def)
next
  case (Some a)
  obtain ns na where a: "a = (ns, na)" by (cases a)
  let ?w = "w\<lparr> postFetches := take n (postFetches w) @ drop (Suc n) (postFetches w) \<rparr>"
  obtain refs w1 where al: "allocSlides ns ?w = (refs, w1)"
    by (cases "allocSlides ns ?w")
  from fresh_allocSlides [OF al]
  have "nextVideo w1 = nextVideo w" by simp
  then show ?thesis by (simp add: morePostsLoaded_def Let_def Some a al)
qed

subsection \<open>Operations that only remove entries\<close>

lemma shrinks_refl [simp]: "shrinks w w"
  by (simp add: shrinks_def)

lemma shrinks_trans: "shrinks w w1 \<Longrightarrow> shrinks w1 w2 \<Longrightarrow> shrinks w w2"
  by (auto simp: shrinks_def intro: subseq_order.trans)

lemma shrinks_same:
  "preloadedVideos w' = preloadedVideos w \<Longrightarrow> nextVideo w' = nextVideo w \<Longrightarrow> shrinks w w'"
  by (simp add: shrinks_def)

lemma subseq_delete: "subseq (AList.delete k al) al"
  by (simp add: AList.delete_eq)

lemma subseq_subset: "subseq xs ys \<Longrightarrow> set xs \<subseteq> set ys"
  by (auto elim: list_emb_set)

lemma subseq_distinct: "subseq xs ys \<Longrightarrow> distinct ys \<Longrightarrow> distinct xs"
  by (induction rule: list_emb.induct) (auto dest: subseq_subset)

lemma shrinks_owns:
  assumes "shrinks w w'" and "ownsElements w"
  shows "ownsElements w'"
proof -
  from assms(1) have s: "subseq (preloadedVideos w') (preloadedVideos w)"
    and n: "nextVideo w \<le> nextVideo w'"
    by (simp_all add: shrinks_def)
  from s have m: "subseq (map (\<lambda>(p, c). element c) (preloadedVideos w'))
                    (map (\<lambda>(p, c). element c) (preloadedVideos w))"
    by (rule subseq_map)
  from assms(2) have d: "distinct (map (\<lambda>(p, c). element c) (preloadedVideos w))"
    and f: "\<forall>r \<in> cachedElements (preloadedVideos w). r < nextVideo w"
    by (simp_all add: ownsElements_def)
  from subseq_distinct [OF m d]
  have "distinct (map (\<lambda>(p, c). element c) (preloadedVideos w'))" .
  moreover from subseq_subset [OF m]
  have "cachedElements (preloadedVideos w') \<subseteq> cachedElements (preloadedVideos w)"
    by (simp add: cachedElements_def)
  ultimately show ?thesis
    using f n by (fastforce simp: ownsElements_def)
qed

lemma shrinks_videoError: "shrinks w (videoError r w)"
  by (simp add: videoError_def shrinks_def subseq_delete split: option.splits)

lemma shrinks_getPreloadedVideo: "shrinks w (snd (getPreloadedVideo i w))"
  by (simp add: getPreloadedVideo_def shrinks_def subseq_delete split: option.splits)

lemma fresh_cleanupLoop [simp]: "nextVideo (cleanupLoop cfg cur es w) = nextVideo w"
  by (induction cfg cur es w rule: cleanupLoop.induct) simp_all

lemma shrinks_cleanupOldPreloads: "shrinks w (cleanupOldPreloads cfg cur w)"
  by (simp add: cleanupOldPreloads_def shrinks_def cleanupLoop_cache)

lemma shrinks_createSlideElement: "shrinks w (snd (createSlideElement d pos i w))"
proof (cases "getPreloadedVideo i w")
  case (Pair v w1)
  with shrinks_getPreloadedVideo [of w i]
  have l: "subseq (preloadedVideos w1) (preloadedVideos w)" "nextVideo w \<le> nextVideo w1"
    by (simp_all add: shrinks_def)
  show ?thesis
    using l
    by (cases v)
       (simp_all add: createSlideElement_def Pair Let_def shrinks_def split: option.splits)
qed

lemma shrinks_renderOffsets: "shrinks w (renderOffsets sl cur os w)"
proof (induction sl cur os w rule: renderOffsets.induct)
  case (1 sl current w)
  then show ?case by simp
next
  case (2 sl current offset pos rest w)
  let ?idx = "current + offset"
  show ?case
  proof (cases "?idx < 0 \<or> ?idx \<ge> int (length sl)")
    case True
    with "2.IH"(1) show ?thesis by (simp add: Let_def)
  next
    case False
    obtain el w1 where c: "createSlideElement (sl ! nat ?idx) pos ?idx w = (el, w1)"
      by (cases "createSlideElement (sl ! nat ?idx) pos ?idx w")
    let ?w2 = "w1\<lparr> slideshow := map_option (\<lambda>es. es @ [el]) (slideshow w1) \<rparr>"
    from shrinks_createSlideElement [of w "sl ! nat ?idx" pos ?idx] c
    have "shrinks w ?w2" by (simp add: shrinks_def)
    from shrinks_trans [OF this "2.IH"(2) [OF refl False c [symmetric]]] False c
    show ?thesis by (simp add: Let_def)
  qed
qed

lemma shrinks_updateSlides: "shrinks w (updateSlides w)"
proof (cases "slideshow w")
  case None
  then show ?thesis by (simp add: updateSlides_def)
next
  case (Some es)
  from shrinks_renderOffsets
    [of "w\<lparr> slideshow := Some [] \<rparr>" "slides w" "currentIndex w"
        "[(-1, ''prev''), (0, ''active''), (1, ''next'')]"]
  have "shrinks w (renderOffsets (slides w) (currentIndex w)
          [(-1, ''prev''), (0, ''active''), (1, ''next'')] (w\<lparr> slideshow := Some [] \<rparr>))"
    by (simp add: shrinks_def del: renderOffsets.simps)
  then show ?thesis by (simp add: updateSlides_def Some del: renderOffsets.simps)
qed

lemma shrinks_navigate: "shrinks w (navigate cfg d w)"
proof (cases "currentIndex w + d < 0 \<or> currentIndex w + d \<ge> int (length (slides w))")
  case True
  then show ?thesis by (simp add: navigate_noop)
next
  case False
  define w3 where "w3 = (case getActiveVideo (stopBufferMonitoring (resetZoom w)) of
      None \<Rightarrow> stopBufferMonitoring (resetZoom w)
    | Some video \<Rightarrow> pause video (stopBufferMonitoring (resetZoom w)))"
  define w4 where "w4 = w3\<lparr> currentIndex := currentIndex w + d, preloadingPaused := False \<rparr>"
  define w5 where "w5 = updateSlides w4"
  define w6 where "w6 = (if s_type (objs w5 (slides w ! nat (currentIndex w + d))) = ''video''
                     then setTimeout StartBufferMonitoring w5 else w5)"
  define w8 where "w8 = cleanupOldPreloads cfg (currentIndex w + d) (preloadUpcomingMedia cfg w6)"
  have nav: "navigate cfg d w = (if shouldPreloadPosts cfg w8 then loadMorePosts w8 else w8)"
    using False by (simp add: navigate_def Let_def w3_def w4_def w5_def w6_def w8_def)
  have "shrinks w w3"
    by (simp add: w3_def shrinks_def split: option.splits)
  then have "shrinks w w4" by (simp add: w4_def shrinks_def)
  from shrinks_trans [OF this shrinks_updateSlides]
  have "shrinks w w5" by (simp add: w5_def)
  then have "shrinks w (preloadUpcomingMedia cfg w6)" by (simp add: w6_def shrinks_def)
  from shrinks_trans [OF this shrinks_cleanupOldPreloads]
  have "shrinks w w8" by (simp add: w8_def)
  then show ?thesis by (simp add: nav shrinks_def)
qed

lemma shrinks_subredditLoaded: "shrinks w (subredditLoaded res w)"
proof (cases "feedFetches w = 0")
  case True
  then show ?thesis by (simp add: subredditLoaded_def)
next
  case nz: False
  show ?thesis
  proof (cases res)
    case None
    with nz show ?thesis by (simp add: subredditLoaded_def Let_def shrinks_def)
  next
    case (Some a)
    obtain ns na where a: "a = (ns, na)" by (cases a)
    let ?w0 = "w\<lparr> feedFetches := feedFetches w - 1 \<rparr>"
    obtain refs w1 where al: "allocSlides ns ?w0 = (refs, w1)"
      by (cases "allocSlides ns ?w0")
    from cache_allocSlides [OF al] fresh_allocSlides [OF al]
    have e: "preloadedVideos w1 = preloadedVideos w" "nextVideo w1 = nextVideo w" by simp_all
    from e have s2: "shrinks w (w1\<lparr> slides := rs, after := na, loading := False \<rparr>)" for rs
      by (simp add: shrinks_def)
    from shrinks_trans [OF s2 shrinks_updateSlides]
    have l: "shrinks w (updateSlides (w1\<lparr> slides := refs, after := na, loading := False \<rparr>))" .
    note al' = al [simplified]
    with l s2 nz show ?thesis by (simp add: subredditLoaded_def Let_def Some a al')
  qed
qed

subsection \<open>Admission creates a new element\<close>

lemma owns_preloadVideoElement:
  "ownsElements w \<Longrightarrow> ownsElements (preloadVideoElement cfg d i u w)"
  by (auto simp: ownsElements_def preloadVideoElement_def Let_def has_def update_absent
        cachedElements_def)

lemma owns_preloadVideosLoop:
  "ownsElements w \<Longrightarrow> ownsElements (preloadVideosLoop cfg sl is w)"
  by (induction cfg sl "is" w rule: preloadVideosLoop.induct)
     (auto simp: Let_def owns_preloadVideoElement split: option.splits)

lemma owns_timerFired:
  assumes c: "ownsElements w"
  shows "ownsElements (timerFired cfg n w)"
proof -
  let ?w = "w\<lparr> timers := take n (timers w) @ drop (Suc n) (timers w) \<rparr>"
  from c have c': "ownsElements ?w" by (simp add: ownsElements_def)
  have "ownsElements (runTask cfg t ?w)" for t
  proof (cases t)
    case StartBufferMonitoring
    with c' show ?thesis by (simp add: runTask_def ownsElements_def)
  next
    case (PreloadUpcomingVideos sl cur)
    with c' show ?thesis by (simp add: runTask_def preloadUpcomingVideos_def owns_preloadVideosLoop)
  qed
  with c show ?thesis by (simp add: timerFired_def)
qed

lemma owns_step:
  assumes c: "ownsElements w"
  shows "ownsElements (step cfg enc e w)"
proof (cases e)
  case (Navigate d)
  with shrinks_owns [OF shrinks_navigate c] show ?thesis by (simp add: step_def)
next
  case (SubredditLoaded r)
  with shrinks_owns [OF shrinks_subredditLoaded c] show ?thesis by (simp add: step_def)
next
  case (TimerFired n)
  with c show ?thesis by (simp add: step_def owns_timerFired)
next
  case (VideoError r)
  with shrinks_owns [OF shrinks_videoError c] show ?thesis by (simp add: step_def)
next
  case (CallPreloadVideoElement d i u)
  with c show ?thesis by (simp add: step_def owns_preloadVideoElement)
next
  case (CallGetPreloadedVideo i)
  with shrinks_owns [OF shrinks_getPreloadedVideo c] show ?thesis by (simp add: step_def)
next
  case (CallCleanupOldPreloads cur)
  with shrinks_owns [OF shrinks_cleanupOldPreloads c] show ?thesis by (simp add: step_def)
qed (use c in \<open>simp_all add: step_def ownsElements_def\<close>)

lemma owns_run: "ownsElements w \<Longrightarrow> ownsElements (run cfg enc evs w)"
  by (induction evs arbitrary: w) (simp_all add: owns_step)

lemma owns_emptyWorld: "ownsElements emptyWorld"
  by (simp add: ownsElements_def emptyWorld_def cachedElements_def)

end
